theory Spec2Isabelle
  imports Main "HOL-Library.AList" "HOL-Library.Char_ord" "HOL-Library.List_Lexorder"
    "HOL-Library.Multiset"
begin

section \<open>Values exchanged with the JSON-RPC provider\<close>

text \<open>
  The scanners handle decoded JSON documents, which Python represents by \<open>None\<close>,
  \<open>bool\<close>, \<open>int\<close>, \<open>str\<close>, \<open>list\<close> and \<open>dict\<close>. A dict is an association list whose
  first binding of a key is the one that counts. Floating-point numbers are left out of
  the value type.
\<close>

datatype json =
    JNull
  | JBool bool
  | JInt int
  | JStr string
  | JList "json list"
  | JDict "(string \<times> json) list"

text \<open>The Python exceptions that the modelled code can raise.\<close>

datatype exn =
    RuntimeError string
  | AttributeError
  | TypeError
  | ValueError
  | IndexError
  | ZeroDivisionError
  | RecursionError

section \<open>Python's view of JSON values\<close>

definition py_get :: "(string \<times> json) list \<Rightarrow> string \<Rightarrow> json \<Rightarrow> json" where
  "py_get d k dflt = (case map_of d k of None \<Rightarrow> dflt | Some v \<Rightarrow> v)"

definition has_key :: "(string \<times> json) list \<Rightarrow> string \<Rightarrow> bool" where
  "has_key d k = (map_of d k \<noteq> None)"

fun truthy :: "json \<Rightarrow> bool" where
  "truthy JNull = False"
| "truthy (JBool b) = b"
| "truthy (JInt i) = (i \<noteq> 0)"
| "truthy (JStr s) = (s \<noteq> [])"
| "truthy (JList xs) = (xs \<noteq> [])"
| "truthy (JDict d) = (d \<noteq> [])"

text \<open>\<open>x == i\<close> for an integer \<open>i\<close>: Python's \<open>True\<close> and \<open>False\<close> are the integers 1 and 0.\<close>

fun eq_int :: "json \<Rightarrow> int \<Rightarrow> bool" where
  "eq_int (JInt j) i = (j = i)"
| "eq_int (JBool b) i = ((if b then 1 else 0) = i)"
| "eq_int _ i = False"

subsection \<open>Printing integers\<close>

text \<open>
  The numerals of an integer \<open>n\<close>: Python's \<open>hex(n)\<close>, and the decimal numeral that
  \<open>str(n)\<close> returns when it returns.
\<close>

definition digit_char :: "nat \<Rightarrow> char" where
  "digit_char d = ''0123456789abcdef'' ! d"

fun hex_digits :: "nat \<Rightarrow> string" where
  "hex_digits n = (if n < 16 then [digit_char n] else hex_digits (n div 16) @ [digit_char (n mod 16)])"

fun dec_digits :: "nat \<Rightarrow> string" where
  "dec_digits n = (if n < 10 then [digit_char n] else dec_digits (n div 10) @ [digit_char (n mod 10)])"

declare hex_digits.simps [simp del] dec_digits.simps [simp del]

definition py_hex :: "int \<Rightarrow> string" where
  "py_hex i = (if i < 0 then ''-0x'' @ hex_digits (nat (- i)) else ''0x'' @ hex_digits (nat i))"

definition py_str_int :: "int \<Rightarrow> string" where
  "py_str_int i = (if i < 0 then ''-'' @ dec_digits (nat (- i)) else dec_digits (nat i))"

section \<open>Strings and numbers as Python reads them\<close>

text \<open>
  Strings are sequences of bytes here, and the functions below are Python's on ASCII
  text, which is what addresses and quantities are made of: \<open>lower\<close> folds the letters A
  to Z, and a byte outside ASCII is neither a digit nor white space.
\<close>

definition lower_char :: "char \<Rightarrow> char" where
  "lower_char c = (if CHR ''A'' \<le> c \<and> c \<le> CHR ''Z'' then char_of (of_char c + (32::nat)) else c)"

definition lower :: "string \<Rightarrow> string" where
  "lower s = map lower_char s"

definition starts_with :: "string \<Rightarrow> string \<Rightarrow> bool" where
  "starts_with s p = (take (length p) s = p)"

definition is_space :: "char \<Rightarrow> bool" where
  "is_space c = (of_char c \<in> {9, 10, 11, 12, 13, 32 :: nat})"

definition digit_value :: "char \<Rightarrow> nat option" where
  "digit_value c =
     (if CHR ''0'' \<le> c \<and> c \<le> CHR ''9'' then Some (of_char c - 48)
      else if CHR ''a'' \<le> c \<and> c \<le> CHR ''z'' then Some (of_char c - 87)
      else if CHR ''A'' \<le> c \<and> c \<le> CHR ''Z'' then Some (of_char c - 55)
      else None)"

text \<open>
  The digits of \<open>int(s, base)\<close>: digits below the base, with single underscores between
  them; \<open>prev_us\<close> tells that the previous character was an underscore.
\<close>

fun parse_digits :: "nat \<Rightarrow> string \<Rightarrow> nat \<Rightarrow> bool \<Rightarrow> nat option" where
  "parse_digits b [] acc prev_us = (if prev_us then None else Some acc)"
| "parse_digits b (c # cs) acc prev_us =
     (if c = CHR ''_'' then (if prev_us then None else parse_digits b cs acc True)
      else case digit_value c of
             None \<Rightarrow> None
           | Some d \<Rightarrow> if d < b then parse_digits b cs (acc * b + d) False else None)"

text \<open>
  CPython refuses to convert between \<open>int\<close> and a string of more than 4300 digits in a
  base that is not a power of two (\<open>sys.int_info.default_max_str_digits\<close>, since 3.11):
  \<open>int\<close> and \<open>str\<close> raise \<open>ValueError\<close> then.
\<close>

definition max_str_digits :: nat where
  "max_str_digits = 4300"

text \<open>
  \<open>int(s, base)\<close> for base 10 or 16, \<open>None\<close> for \<open>ValueError\<close>: white space around, an
  optional sign, for base 16 an optional \<open>0x\<close> or \<open>0X\<close> that may be followed by one
  underscore, then the digits, of which base 10 admits no more than \<open>max_str_digits\<close>.
\<close>

definition py_int_str :: "nat \<Rightarrow> string \<Rightarrow> int option" where
  "py_int_str b s =
     (let s1 = dropWhile is_space s;
          neg = starts_with s1 ''-'';
          s2 = (if starts_with s1 ''+'' \<or> starts_with s1 ''-'' then tl s1 else s1);
          pre = (b = 16 \<and> (starts_with s2 ''0x'' \<or> starts_with s2 ''0X''));
          s3 = (if pre then drop 2 s2 else s2);
          s4 = (if pre \<and> starts_with s3 ''_'' then tl s3 else s3);
          s5 = rev (dropWhile is_space (rev s4))
      in if s5 = [] \<or> starts_with s5 ''_'' then None
         else (case parse_digits b s5 0 False of
                 None \<Rightarrow> None
               | Some n \<Rightarrow>
                   if b \<noteq> 16 \<and> max_str_digits < length (filter (\<lambda>c. c \<noteq> CHR ''_'') s5)
                   then None
                   else Some (if neg then - int n else int n)))"

text \<open>\<open>repr\<close> of a string: the quote Python chooses, and its escapes.\<close>

definition hex2 :: "nat \<Rightarrow> string" where
  "hex2 n = [digit_char (n div 16), digit_char (n mod 16)]"

definition repr_char :: "char \<Rightarrow> char \<Rightarrow> string" where
  "repr_char q c =
     (if c = CHR 0x5C then [CHR 0x5C, CHR 0x5C]
      else if c = q then [CHR 0x5C, q]
      else if c = CHR 0x09 then [CHR 0x5C, CHR ''t'']
      else if c = CHR 0x0A then [CHR 0x5C, CHR ''n'']
      else if c = CHR 0x0D then [CHR 0x5C, CHR ''r'']
      else if of_char c < (32::nat) \<or> of_char c = (127::nat) then [CHR 0x5C, CHR ''x''] @ hex2 (of_char c)
      else [c])"

definition repr_str :: "string \<Rightarrow> string" where
  "repr_str s =
     (let q = (if CHR 0x27 \<in> set s \<and> CHR 0x22 \<notin> set s then CHR 0x22 else CHR 0x27)
      in [q] @ concat (map (repr_char q) s) @ [q])"

definition join_comma :: "string list \<Rightarrow> string" where
  "join_comma xs = (case xs of [] \<Rightarrow> [] | x # ys \<Rightarrow> x @ concat (map (\<lambda>y. '', '' @ y) ys))"

lemma clearjunk_subset: "set (AList.clearjunk d) \<subseteq> set d"
  by (induction d rule: AList.clearjunk.induct) (auto simp: AList.delete_eq)

lemma size_json_entry: "(k, v) \<in> set d \<Longrightarrow> size v < size (JDict d)"
  by (induction d) auto

function py_repr :: "json \<Rightarrow> string" where
  "py_repr JNull = ''None''"
| "py_repr (JBool b) = (if b then ''True'' else ''False'')"
| "py_repr (JInt i) = py_str_int i"
| "py_repr (JStr s) = repr_str s"
| "py_repr (JList xs) = ''['' @ join_comma (map py_repr xs) @ '']''"
| "py_repr (JDict d) =
     ''{'' @ join_comma (map (\<lambda>(k, v). repr_str k @ '': '' @ py_repr v) (AList.clearjunk d)) @ ''}''"
  by pat_completeness auto
termination
proof (relation "measure size")
  fix d :: "(string \<times> json) list" and x :: "string \<times> json" and k v
  assume "x \<in> set (AList.clearjunk d)" "(k, v) = x"
  then have "(k, v) \<in> set d" using clearjunk_subset by auto
  then show "(v, JDict d) \<in> measure size" using size_json_entry[of k v d] by simp
next
  fix xs :: "json list" and x
  assume "x \<in> set xs"
  then show "(x, JList xs) \<in> measure size" by (induction xs) auto
qed simp

text \<open>
  Printing a value prints the integers in it, and fails on one of more than
  \<open>max_str_digits\<close> digits.
\<close>

function has_huge_int :: "json \<Rightarrow> bool" where
  "has_huge_int JNull = False"
| "has_huge_int (JBool b) = False"
| "has_huge_int (JInt i) = (max_str_digits < length (dec_digits (nat \<bar>i\<bar>)))"
| "has_huge_int (JStr s) = False"
| "has_huge_int (JList xs) = (\<exists>x\<in>set xs. has_huge_int x)"
| "has_huge_int (JDict d) = (\<exists>(k, v)\<in>set (AList.clearjunk d). has_huge_int v)"
  by pat_completeness auto
termination
proof (relation "measure size")
  fix d :: "(string \<times> json) list" and x :: "string \<times> json" and k v
  assume "x \<in> set (AList.clearjunk d)" "(k, v) = x"
  then have "(k, v) \<in> set d" using clearjunk_subset by auto
  then show "(v, JDict d) \<in> measure size" using size_json_entry[of k v d] by simp
next
  fix xs :: "json list" and x
  assume "x \<in> set xs"
  then show "(x, JList xs) \<in> measure size" by (induction xs) auto
qed simp

text \<open>
  \<open>str(x)\<close>: a string is itself, anything else prints as its \<open>repr\<close>, or raises
  \<open>ValueError\<close> when an integer in it is too long to print.
\<close>

definition py_str :: "json \<Rightarrow> exn + string" where
  "py_str x =
     (case x of
        JStr s \<Rightarrow> Inr s
      | _ \<Rightarrow> if has_huge_int x then Inl ValueError else Inr (py_repr x))"

text \<open>\<open>x or y\<close>.\<close>

definition py_or :: "json \<Rightarrow> json \<Rightarrow> json" where
  "py_or x y = (if truthy x then x else y)"

text \<open>
  What a \<open>for\<close> loop visits: the elements of a list, the characters of a string, the keys of
  a dict; the other values are not iterable (\<open>TypeError\<close>).
\<close>

definition py_iter :: "json \<Rightarrow> exn + json list" where
  "py_iter x =
     (case x of
        JList xs \<Rightarrow> Inr xs
      | JStr s \<Rightarrow> Inr (map (\<lambda>c. JStr [c]) s)
      | JDict d \<Rightarrow> Inr (map (\<lambda>(k, v). JStr k) (AList.clearjunk d))
      | _ \<Rightarrow> Inl TypeError)"

definition dict_values :: "(string \<times> json) list \<Rightarrow> json list" where
  "dict_values d = map snd (AList.clearjunk d)"

section \<open>\<open>RPCClient\<close>: retries and endpoint rotation\<close>

text \<open>
  The fields of \<open>RPCClient\<close> that the transport logic reads or writes. The constructor
  asserts that the endpoint list is not empty.
\<close>

record client =
  endpoints :: "string list"
  max_retries :: int
  endpoint_idx :: nat
  last_id :: int

definition new_client :: "string list \<Rightarrow> int \<Rightarrow> client option" where
  "new_client eps mr =
     (if eps = [] then None
      else Some \<lparr>endpoints = eps, max_retries = mr, endpoint_idx = 0, last_id = 0\<rparr>)"

definition next_id :: "client \<Rightarrow> int \<times> client" where
  "next_id c = (last_id c + 1, c\<lparr>last_id := last_id c + 1\<rparr>)"

definition cur_endpoint :: "client \<Rightarrow> string" where
  "cur_endpoint c = endpoints c ! (endpoint_idx c mod length (endpoints c))"

definition rotate_endpoint :: "client \<Rightarrow> client" where
  "rotate_endpoint c = c\<lparr>endpoint_idx := (endpoint_idx c + 1) mod length (endpoints c)\<rparr>"

text \<open>
  \<open>_cur_endpoint\<close> takes the index modulo the length of the pool, which raises
  \<open>ZeroDivisionError\<close> on an empty pool; it is called before the \<open>try\<close> of \<open>_post\<close>.

  One HTTP exchange is a function of the attempt number, the URL and the payload; it
  yields the decoded body, or \<open>None\<close> when the request, the status check or the decoding
  raises. The source prints one warning per failed attempt and keeps no counter, so the
  outcome below carries the warnings (attempt number and URL) and the number of rotations
  next to the returned value and the updated client.
\<close>

type_synonym transport = "int \<Rightarrow> string \<Rightarrow> json \<Rightarrow> json option"

record post_outcome =
  returned :: "exn + json"
  client_after :: client
  warnings :: "(int \<times> string) list"
  rotations :: nat

definition fatal_transport_error :: exn where
  "fatal_transport_error = RuntimeError ''RPC POST failed after retries across endpoints''"

fun post_attempts ::
  "transport \<Rightarrow> json \<Rightarrow> int list \<Rightarrow> client \<Rightarrow> (int \<times> string) list \<Rightarrow> nat \<Rightarrow> post_outcome"
where
  "post_attempts tr payload [] c ws r =
     \<lparr>returned = Inl fatal_transport_error,
      client_after = c, warnings = ws, rotations = r\<rparr>"
| "post_attempts tr payload (attempt # rest) c ws r =
     (if endpoints c = []
      then \<lparr>returned = Inl ZeroDivisionError, client_after = c, warnings = ws, rotations = r\<rparr>
      else
        (let url = cur_endpoint c in
         case tr attempt url payload of
           Some body \<Rightarrow> \<lparr>returned = Inr body, client_after = c, warnings = ws, rotations = r\<rparr>
         | None \<Rightarrow>
             if 2 \<le> attempt \<and> 1 < length (endpoints c)
             then post_attempts tr payload rest (rotate_endpoint c) (ws @ [(attempt, url)]) (Suc r)
             else post_attempts tr payload rest c (ws @ [(attempt, url)]) r))"

definition post :: "transport \<Rightarrow> client \<Rightarrow> json \<Rightarrow> post_outcome" where
  "post tr c payload = post_attempts tr payload [1..max_retries c] c [] 0"

text \<open>A transport that fails on its first \<open>k\<close> attempts and answers \<open>body\<close> afterwards.\<close>

definition fails_first :: "int \<Rightarrow> json \<Rightarrow> transport" where
  "fails_first k body = (\<lambda>attempt url payload. if attempt \<le> k then None else Some body)"

definition two_endpoints :: client where
  "two_endpoints =
     \<lparr>endpoints = [''https://a'', ''https://b''], max_retries = 5, endpoint_idx = 0, last_id = 0\<rparr>"

section \<open>\<open>RPCClient\<close>: single and batched calls\<close>

definition envelope :: "int \<Rightarrow> string \<Rightarrow> json list \<Rightarrow> json" where
  "envelope i m p =
     JDict [(''jsonrpc'', JStr ''2.0''), (''id'', JInt i), (''method'', JStr m),
            (''params'', JList p)]"

text \<open>
  \<open>raise RuntimeError(f"RPC error: {res['error']}")\<close>: formatting the message prints the
  error field, which can itself raise.
\<close>

definition rpc_error :: "string \<Rightarrow> json \<Rightarrow> exn + 'a" where
  "rpc_error prefix err =
     (case py_str err of Inl e \<Rightarrow> Inl e | Inr s \<Rightarrow> Inl (RuntimeError (prefix @ s)))"

definition call :: "transport \<Rightarrow> client \<Rightarrow> string \<Rightarrow> json list \<Rightarrow> (exn + json) \<times> client" where
  "call tr c m p =
     (let (i, c1) = next_id c;
          outc = post tr c1 (envelope i m p)
      in (case returned outc of
            Inl e \<Rightarrow> Inl e
          | Inr (JDict d) \<Rightarrow>
              if has_key d ''error'' then rpc_error ''RPC error: '' (py_get d ''error'' JNull)
              else Inr (py_get d ''result'' JNull)
          | Inr _ \<Rightarrow> Inl AttributeError,
          client_after outc))"

text \<open>The list comprehension that draws one fresh id per call, in order.\<close>

fun batch_requests :: "client \<Rightarrow> (string \<times> json list) list \<Rightarrow> json list \<times> client" where
  "batch_requests c [] = ([], c)"
| "batch_requests c ((m, p) # calls) =
     (let (i, c1) = next_id c;
          (rs, c2) = batch_requests c1 calls
      in (envelope i m p # rs, c2))"

text \<open>
  \<open>by_id\<close> is the dict comprehension \<open>{item.get("id"): item for item in res}\<close>: an item
  that is not a dict has no \<open>get\<close>, a list or dict is not hashable, and a later item
  replaces an earlier one under the same key. The table is kept as the pairs in arrival
  order, and a lookup takes the last pair whose key equals the integer asked for.
\<close>

fun by_id :: "json list \<Rightarrow> exn + (json \<times> (string \<times> json) list) list" where
  "by_id [] = Inr []"
| "by_id (JDict d # items) =
     (case py_get d ''id'' JNull of
        JList _ \<Rightarrow> Inl TypeError
      | JDict _ \<Rightarrow> Inl TypeError
      | k \<Rightarrow> (case by_id items of Inl e \<Rightarrow> Inl e | Inr tbl \<Rightarrow> Inr ((k, d) # tbl)))"
| "by_id (_ # items) = Inl AttributeError"

definition by_id_get :: "(json \<times> (string \<times> json) list) list \<Rightarrow> int \<Rightarrow> (string \<times> json) list" where
  "by_id_get tbl i =
     (case filter (\<lambda>(k, d). eq_int k i) (rev tbl) of [] \<Rightarrow> [] | (k, d) # _ \<Rightarrow> d)"

definition request_id :: "json \<Rightarrow> int" where
  "request_id r = (case r of JDict d \<Rightarrow> (case py_get d ''id'' JNull of JInt i \<Rightarrow> i | _ \<Rightarrow> 0) | _ \<Rightarrow> 0)"

definition render_item :: "(string \<times> json) list \<Rightarrow> json" where
  "render_item item =
     (if has_key item ''error'' then JDict [(''error'', py_get item ''error'' JNull)]
      else py_get item ''result'' JNull)"

definition batch_decode :: "json list \<Rightarrow> json \<Rightarrow> exn + json list" where
  "batch_decode req res =
     (case res of
        JList items \<Rightarrow>
          (case by_id items of
             Inl e \<Rightarrow> Inl e
           | Inr tbl \<Rightarrow> Inr (map (\<lambda>r. render_item (by_id_get tbl (request_id r))) req))
      | JDict d \<Rightarrow>
          if has_key d ''error'' then rpc_error ''Batch RPC error: '' (py_get d ''error'' JNull)
          else Inl (RuntimeError ''Unexpected batch response format'')
      | _ \<Rightarrow> Inl (RuntimeError ''Unexpected batch response format''))"

definition batch ::
  "transport \<Rightarrow> client \<Rightarrow> (string \<times> json list) list \<Rightarrow> (exn + json list) \<times> client"
where
  "batch tr c calls =
     (if calls = [] then (Inr [], c)
      else
        let (req, c1) = batch_requests c calls;
            outc = post tr c1 (JList req)
        in (case returned outc of
              Inl e \<Rightarrow> Inl e
            | Inr res \<Rightarrow> batch_decode req res,
            client_after outc))"

section \<open>\<open>fetch_blocks\<close>: windows of batched block requests\<close>








text \<open>A transport that never answers.\<close>

definition always_fails :: transport where
  "always_fails = (\<lambda>attempt url payload. None)"

subsection \<open>Providers that answer every request\<close>

text \<open>
  What the results on batched calls assume of the provider: the response array holds, in
  any order, one dict per request that carries the request's id. \<open>answers g reqs items\<close>
  says moreover that the content of the response to a request (its result, or its error
  marker) is \<open>g\<close> of the request's parameters; \<open>serves tr c g\<close> says that the transport
  delivers such an array for every batch that a client with the endpoints and retry
  budget of \<open>c\<close> posts.
\<close>

definition request_params :: "json \<Rightarrow> json" where
  "request_params r = (case r of JDict d \<Rightarrow> py_get d ''params'' JNull | _ \<Rightarrow> JNull)"





section \<open>Counting internal transfers in a trace\<close>

text \<open>
  The value of a string: \<open>int(val, 16)\<close> when it starts with \<open>0x\<close>, \<open>int(val or 0)\<close>
  otherwise. Both scanners and both branches read strings this way.
\<close>

definition str_value :: "string \<Rightarrow> exn + int" where
  "str_value s =
     (if starts_with s ''0x''
      then (case py_int_str 16 s of None \<Rightarrow> Inl ValueError | Some v \<Rightarrow> Inr v)
      else if s = [] then Inr 0
      else (case py_int_str 10 s of None \<Rightarrow> Inl ValueError | Some v \<Rightarrow> Inr v))"

text \<open>\<open>int(v or 0)\<close> of the call-tree branch, for a value that is not a string.\<close>

definition int_or_zero :: "json \<Rightarrow> exn + int" where
  "int_or_zero v =
     (if \<not> truthy v then Inr 0
      else (case v of
              JInt i \<Rightarrow> Inr i
            | JBool b \<Rightarrow> Inr (if b then 1 else 0)
            | JStr s \<Rightarrow> (case py_int_str 10 s of None \<Rightarrow> Inl ValueError | Some i \<Rightarrow> Inr i)
            | _ \<Rightarrow> Inl TypeError))"

text \<open>\<open>val > 0\<close>, where the flat branch leaves a value that is not a string as it is.\<close>

definition gt_zero :: "json \<Rightarrow> exn + bool" where
  "gt_zero v =
     (case v of
        JInt i \<Rightarrow> Inr (0 < i)
      | JBool b \<Rightarrow> Inr b
      | _ \<Rightarrow> Inl TypeError)"

text \<open>
  One pass of the loop over a flat \<open>trace_block\<close> list, inside its \<open>try\<close>: \<open>Inr True\<close> when
  the entry is counted, \<open>Inr False\<close> when it is not, \<open>Inl\<close> the exception that the handler
  turns into \<open>continue\<close>. The comparison \<open>val > 0\<close> is evaluated only when the recipient is
  the target.
\<close>

definition trace_entry :: "string \<Rightarrow> json \<Rightarrow> exn + bool" where
  "trace_entry target t =
     (case t of
        JDict d \<Rightarrow>
          if py_get d ''type'' JNull \<notin> set [JStr ''call'', JStr ''create'', JStr ''suicide'']
          then Inr False
          else
            (case py_or (py_get d ''action'' (JDict [])) (JDict []) of
               JDict a \<Rightarrow>
                 (case py_str (py_get a ''to'' (JStr [])) of
                    Inl e \<Rightarrow> Inl e
                  | Inr to_str \<Rightarrow>
                      (let to = lower to_str;
                           val = py_get a ''value'' (JInt 0)
                       in case (case val of
                                  JStr s \<Rightarrow>
                                    (case str_value s of Inl e \<Rightarrow> Inl e | Inr i \<Rightarrow> Inr (JInt i))
                                | _ \<Rightarrow> Inr val) of
                            Inl e \<Rightarrow> Inl e
                          | Inr val' \<Rightarrow> if to = target then gt_zero val' else Inr False))
             | _ \<Rightarrow> Inl AttributeError)
      | _ \<Rightarrow> Inl AttributeError)"

fun trace_loop :: "string \<Rightarrow> json list \<Rightarrow> int \<Rightarrow> int" where
  "trace_loop target [] cnt = cnt"
| "trace_loop target (t # ts) cnt =
     trace_loop target ts (case trace_entry target t of Inr True \<Rightarrow> cnt + 1 | _ \<Rightarrow> cnt)"

text \<open>
  The value of a call-tree node: \<open>int(v, 16)\<close> for a string that starts with \<open>0x\<close>,
  \<open>int(v or 0)\<close> for anything else.
\<close>

definition node_value :: "json \<Rightarrow> exn + int" where
  "node_value v = (case v of JStr s \<Rightarrow> str_value s | _ \<Rightarrow> int_or_zero v)"

text \<open>
  \<open>dfs\<close> updates the counter \<open>cnt\<close> of the enclosing function and returns nothing; the
  model takes the counter and returns it. Its whole body is inside a \<open>try\<close> whose handler
  returns, keeping what was counted so far. The children are \<open>node.get("calls", []) or []\<close>:
  the loop over a list calls \<open>dfs\<close> on each element; over a string or a dict it calls
  \<open>dfs\<close> on strings, which have no \<open>get\<close>, so each call returns at once; over a number it
  raises \<open>TypeError\<close>, and \<open>dfs\<close> returns.

  The interpreter bounds the depth of nested calls. \<open>room\<close> is the number of further
  nested calls of \<open>dfs\<close> that the bound allows below the running one: with no room left
  the call \<open>dfs(c)\<close> raises \<open>RecursionError\<close> in the caller, whose handler returns, so the
  children are not visited.
\<close>

function dfs :: "nat \<Rightarrow> string \<Rightarrow> json \<Rightarrow> int \<Rightarrow> int" where
  "dfs room target node cnt =
     (case node of
        JDict d \<Rightarrow>
          (case py_str (py_get d ''to'' (JStr [])) of
             Inl e \<Rightarrow> cnt
           | Inr to_str \<Rightarrow>
               (case node_value (py_get d ''value'' (JStr ''0x0'')) of
                  Inl e \<Rightarrow> cnt
                | Inr val \<Rightarrow>
                    (let cnt1 = (if lower to_str = target \<and> 0 < val then cnt + 1 else cnt)
                     in case py_or (py_get d ''calls'' (JList [])) (JList []) of
                          JList cs \<Rightarrow>
                            (case room of
                               0 \<Rightarrow> cnt1
                             | Suc room' \<Rightarrow> fold (dfs room' target) cs cnt1)
                        | JStr s \<Rightarrow> cnt1
                        | JDict ks \<Rightarrow> cnt1
                        | _ \<Rightarrow> cnt1)))
      | _ \<Rightarrow> cnt)"
  by pat_completeness auto
termination
proof (relation "measure (\<lambda>(room, target, node, cnt). size node)")
  fix node :: json and d cs c and room room' :: nat and target :: string and cnt cnt' :: int
  assume "node = JDict d"
    and "py_or (py_get d ''calls'' (JList [])) (JList []) = JList cs"
    and "c \<in> set cs"
  then have "map_of d ''calls'' = Some (JList cs)"
    by (auto simp: py_or_def py_get_def split: option.splits if_splits)
  then have "(''calls'', JList cs) \<in> set d" by (rule map_of_SomeD)
  then have "size (JList cs) < size (JDict d)" by (rule size_json_entry)
  moreover have "size c < size (JList cs)" using \<open>c \<in> set cs\<close> by (induction cs) auto
  ultimately show "((room', target, c, cnt'), (room, target, node, cnt))
      \<in> measure (\<lambda>(room, target, node, cnt). size node)"
    using \<open>node = JDict d\<close> by simp
qed simp

declare dfs.simps [simp del]

text \<open>
  The loop over the per-transaction results of a \<open>debug_trace\<close> payload. It stands outside
  any \<open>try\<close>: \<open>v.get("result")\<close> on a value that is not a dict raises \<open>AttributeError\<close> out
  of \<open>count_internal_receives\<close>, and so does a call of \<open>dfs\<close> for which the interpreter has
  no room. \<open>depth\<close> is the number of nested calls of \<open>dfs\<close> that the interpreter's bound
  allows where \<open>count_internal_receives\<close> runs.
\<close>

fun roots_loop :: "nat \<Rightarrow> string \<Rightarrow> json list \<Rightarrow> int \<Rightarrow> exn + int" where
  "roots_loop depth target [] cnt = Inr cnt"
| "roots_loop depth target (v # vs) cnt =
     (case v of
        JDict dv \<Rightarrow>
          (case py_or (py_get dv ''result'' JNull) v of
             JDict root \<Rightarrow>
               (case depth of
                  0 \<Rightarrow> Inl RecursionError
                | Suc room \<Rightarrow> roots_loop depth target vs (dfs room target (JDict root) cnt))
           | _ \<Rightarrow> roots_loop depth target vs cnt)
      | _ \<Rightarrow> Inl AttributeError)"

definition debug_trace_count :: "nat \<Rightarrow> string \<Rightarrow> json \<Rightarrow> exn + int" where
  "debug_trace_count depth target payload =
     (case payload of
        JDict d \<Rightarrow> roots_loop depth target (dict_values d) 0
      | JList items \<Rightarrow> roots_loop depth target items 0
      | _ \<Rightarrow> Inr 0)"

text \<open>
  \<open>count_internal_receives\<close> of \<open>scan_eth_public_rpc.py\<close>. The method tag is a string, or
  \<open>None\<close> when tracing is unsupported. The flat branch iterates over the payload as it is.
\<close>

definition count_internal_receives ::
  "nat \<Rightarrow> string option \<Rightarrow> json \<Rightarrow> string \<Rightarrow> exn + int"
where
  "count_internal_receives depth trace_method trace_payload target_addr =
     (let target = lower target_addr in
      if trace_method = Some ''trace_block'' then
        (case py_iter trace_payload of
           Inl e \<Rightarrow> Inl e
         | Inr ts \<Rightarrow> Inr (trace_loop target ts 0))
      else if trace_method = Some ''debug_trace'' then debug_trace_count depth target trace_payload
      else Inr 0)"

text \<open>
  \<open>count_internal_receives\<close> of \<open>scan_eth_highperf_api.py\<close>: the flat branch looks at the
  payload only when it is a list.
\<close>

definition count_internal_receives_hp ::
  "nat \<Rightarrow> string option \<Rightarrow> json \<Rightarrow> string \<Rightarrow> exn + int"
where
  "count_internal_receives_hp depth trace_method payload target0 =
     (let target = lower target0 in
      if trace_method = Some ''trace_block'' then
        (case payload of
           JList ts \<Rightarrow> Inr (trace_loop target ts 0)
         | _ \<Rightarrow> Inr 0)
      else if trace_method = Some ''debug_trace'' then debug_trace_count depth target payload
      else Inr 0)"

text \<open>Digit strings: every character is a digit below the base.\<close>

definition plain_digits :: "nat \<Rightarrow> string \<Rightarrow> bool" where
  "plain_digits b s \<longleftrightarrow> set s \<subseteq> digit_char ` {d. d < 16 \<and> d < b}"


text \<open>
  The same trace record with another encoding of its value: a flat entry whose action
  carries the value \<open>v\<close>, and a call-tree node that carries it.
\<close>

definition entry_with_value :: "json \<Rightarrow> (string \<times> json) list \<Rightarrow> (string \<times> json) list \<Rightarrow> json" where
  "entry_with_value v action t = JDict ((''action'', JDict ((''value'', v) # action)) # t)"

definition node_with_value :: "json \<Rightarrow> (string \<times> json) list \<Rightarrow> json" where
  "node_with_value v d = JDict ((''value'', v) # d)"

section \<open>The public-RPC scanner\<close>

text \<open>
  What the scanner asks of the \<open>Web3\<close> object, as functions of the request: each answers
  or raises. \<open>get_block\<close> stands for \<open>get_block_with_retries\<close>, whose retries end with a
  block or an exception; \<open>to_checksum_address\<close> is the library's address normaliser;
  \<open>recursion_room\<close> is the number of nested calls that the interpreter's bound allows
  where \<open>scan_range\<close> calls \<open>count_internal_receives\<close>.

  Floating-point numbers are not computed: a balance is the term that the source
  evaluates, \<open>wei / 1e18\<close>, or \<open>round(wei / 1e18, 8)\<close> in the Etherscan script.
\<close>

datatype py_float = Div_1e18 int | Round_8 py_float

record tx =
  tx_from :: string
  tx_to :: "string option"
  tx_hash :: string

record w3 =
  get_block :: "int \<Rightarrow> exn + tx list"
  get_code :: "string \<Rightarrow> exn + string"
  get_balance :: "string \<Rightarrow> exn + int"
  receipt_status :: "string \<Rightarrow> exn + int"
  make_request :: "string \<Rightarrow> json list \<Rightarrow> exn + json"
  to_checksum_address :: "string \<Rightarrow> exn + string"
  recursion_room :: nat

subsection \<open>\<open>is_contract\<close> and its cache\<close>

text \<open>
  The outcome of \<open>is_contract\<close>: the value returned or the exception raised, the cache
  afterwards, and the number of \<open>eth_getCode\<close> lookups issued.
\<close>

record contract_outcome =
  answer :: "exn + bool"
  cache_after :: "string \<rightharpoonup> bool"
  lookups :: nat

definition is_contract :: "w3 \<Rightarrow> string \<Rightarrow> (string \<rightharpoonup> bool) \<Rightarrow> contract_outcome" where
  "is_contract w addr cache =
     (if addr = [] then \<lparr>answer = Inr False, cache_after = cache, lookups = 0\<rparr>
      else
        (case to_checksum_address w addr of
           Inl e \<Rightarrow> \<lparr>answer = Inl e, cache_after = cache, lookups = 0\<rparr>
         | Inr al \<Rightarrow>
             (case cache (lower al) of
                Some b \<Rightarrow> \<lparr>answer = Inr b, cache_after = cache, lookups = 0\<rparr>
              | None \<Rightarrow>
                  (case get_code w al of
                     Inl e \<Rightarrow> \<lparr>answer = Inl e, cache_after = cache, lookups = 1\<rparr>
                   | Inr code \<Rightarrow>
                       (let ok = (code \<noteq> [] \<and> 0 < length code)
                        in \<lparr>answer = Inr ok, cache_after = cache(lower al \<mapsto> ok),
                            lookups = 1\<rparr>)))))"

subsection \<open>Tracing a block\<close>

text \<open>
  The two requests of \<open>try_trace_block\<close>, in the order of the source. A request that
  raises, a response that is not a dict, and for the first method a result that is not
  a list, all lead to the next step.
\<close>

definition try_trace_block :: "w3 \<Rightarrow> int \<Rightarrow> string option \<times> json" where
  "try_trace_block w block_number =
     (case (case make_request w ''trace_block'' [JStr (py_hex block_number)] of
              Inr (JDict res) \<Rightarrow>
                (case py_get res ''result'' JNull of
                   JList r \<Rightarrow> Some (Some ''trace_block'', JList r)
                 | _ \<Rightarrow> None)
            | _ \<Rightarrow> None) of
        Some found \<Rightarrow> found
      | None \<Rightarrow>
          (case make_request w ''debug_traceBlockByNumber''
                  [JStr (py_hex block_number),
                   JDict [(''tracer'', JStr ''callTracer''), (''timeout'', JStr ''20s'')]] of
             Inr (JDict res) \<Rightarrow>
               if has_key res ''result'' then (Some ''debug_trace'', py_get res ''result'' JNull)
               else (None, JNull)
           | _ \<Rightarrow> (None, JNull)))"

subsection \<open>\<open>scan_range\<close>\<close>

record scan_state =
  acc_sent_txs :: "string \<rightharpoonup> int"
  acc_received_txs :: "string \<rightharpoonup> int"
  acc_sent_to_contract_txs :: "string \<rightharpoonup> int"
  acc_internal_recv_from_contract_txs :: "string \<rightharpoonup> int"
  seen_addrs :: "string set"
  contract_cache :: "string \<rightharpoonup> bool"

definition init_state :: scan_state where
  "init_state =
     \<lparr>acc_sent_txs = Map.empty, acc_received_txs = Map.empty,
      acc_sent_to_contract_txs = Map.empty, acc_internal_recv_from_contract_txs = Map.empty,
      seen_addrs = {}, contract_cache = Map.empty\<rparr>"

definition get_or :: "('k \<rightharpoonup> 'v) \<Rightarrow> 'k \<Rightarrow> 'v \<Rightarrow> 'v" where
  "get_or d k dflt = (case d k of None \<Rightarrow> dflt | Some v \<Rightarrow> v)"

definition add :: "(string \<rightharpoonup> int) \<Rightarrow> string \<Rightarrow> int \<Rightarrow> (string \<rightharpoonup> int)" where
  "add d k inc = d(k \<mapsto> get_or d k 0 + inc)"

definition get_tx_status :: "w3 \<Rightarrow> string \<Rightarrow> int" where
  "get_tx_status w tx_hash_hex =
     (case receipt_status w tx_hash_hex of Inr s \<Rightarrow> (if s = 1 then 1 else 0) | Inl e \<Rightarrow> 0)"

definition tx_success :: "w3 \<Rightarrow> bool \<Rightarrow> string \<Rightarrow> bool" where
  "tx_success w check_success h_hex = (if \<not> check_success then True else get_tx_status w h_hex = 1)"

text \<open>The body of the loop over the transactions of a block.\<close>

definition scan_tx :: "w3 \<Rightarrow> bool \<Rightarrow> scan_state \<Rightarrow> tx \<Rightarrow> scan_state" where
  "scan_tx w check_success st t =
     (let frm = lower (tx_from t);
          to = lower (case tx_to t of None \<Rightarrow> [] | Some a \<Rightarrow> a);
          h_hex = tx_hash t
      in if check_success \<and> \<not> tx_success w check_success h_hex then st
         else
           (let st1 = (if frm \<noteq> []
                       then st\<lparr>seen_addrs := insert frm (seen_addrs st),
                               acc_sent_txs := add (acc_sent_txs st) frm 1\<rparr>
                       else st)
            in if to \<noteq> [] then
                 (let st2 = st1\<lparr>seen_addrs := insert to (seen_addrs st1),
                                acc_received_txs := add (acc_received_txs st1) to 1\<rparr>;
                      oc = is_contract w to (contract_cache st2);
                      st3 = st2\<lparr>contract_cache := cache_after oc\<rparr>
                  in case answer oc of
                       Inr True \<Rightarrow>
                         st3\<lparr>acc_sent_to_contract_txs := add (acc_sent_to_contract_txs st3) frm 1\<rparr>
                     | _ \<Rightarrow> st3)
               else st1))"

text \<open>
  The addresses of a block whose internal receipts are counted. The source collects them
  in a set and loops over it; here they are a list without repetition, in the order of
  first appearance. Each pass updates the entries of its own address only.
\<close>

definition addrs_in_block :: "tx list \<Rightarrow> string list" where
  "addrs_in_block txs =
     remdups (concat (map (\<lambda>t.
        (if tx_from t \<noteq> [] then [lower (tx_from t)] else []) @
        (case tx_to t of None \<Rightarrow> [] | Some a \<Rightarrow> if a \<noteq> [] then [lower a] else [])) txs))"

definition trace_addr ::
  "nat \<Rightarrow> string option \<Rightarrow> json \<Rightarrow> scan_state \<Rightarrow> string \<Rightarrow> scan_state"
where
  "trace_addr depth method payload st addr =
     (case count_internal_receives depth method payload addr of
        Inl e \<Rightarrow> st
      | Inr c \<Rightarrow>
          if c \<noteq> 0
          then st\<lparr>acc_internal_recv_from_contract_txs :=
                     add (acc_internal_recv_from_contract_txs st) addr c,
                  seen_addrs := insert addr (seen_addrs st)\<rparr>
          else st)"

definition trace_step :: "w3 \<Rightarrow> int \<Rightarrow> tx list \<Rightarrow> scan_state \<Rightarrow> scan_state" where
  "trace_step w bn txs st =
     (let (method, payload) = try_trace_block w bn
      in if method \<noteq> None \<and> method \<noteq> Some [] \<and> truthy payload
         then fold (\<lambda>addr s. trace_addr (recursion_room w) method payload s addr)
                (addrs_in_block txs) st
         else st)"

definition scan_block :: "w3 \<Rightarrow> bool \<Rightarrow> bool \<Rightarrow> int \<Rightarrow> tx list \<Rightarrow> scan_state \<Rightarrow> scan_state" where
  "scan_block w check_success trace_enabled bn txs st =
     (let st1 = fold (\<lambda>t s. scan_tx w check_success s t) txs st
      in if trace_enabled then trace_step w bn txs st1 else st1)"

fun scan_blocks :: "w3 \<Rightarrow> bool \<Rightarrow> bool \<Rightarrow> int list \<Rightarrow> scan_state \<Rightarrow> exn + scan_state" where
  "scan_blocks w check_success trace_enabled [] st = Inr st"
| "scan_blocks w check_success trace_enabled (bn # bns) st =
     (case get_block w bn of
        Inl e \<Rightarrow> Inl e
      | Inr txs \<Rightarrow>
          scan_blocks w check_success trace_enabled bns
            (scan_block w check_success trace_enabled bn txs st))"

record stats_row =
  address :: string
  eth_balance :: "py_float option"
  total_txs :: int
  sent_txs :: int
  received_txs :: int
  sent_to_contract_txs :: int
  received_from_contract_txs :: int
  external_txs :: int
  internal_txs :: int

definition get_balances :: "w3 \<Rightarrow> string list \<Rightarrow> (string \<rightharpoonup> py_float option)" where
  "get_balances w addrs =
     fold (\<lambda>a out.
        out(a \<mapsto> (case to_checksum_address w a of
                     Inl e \<Rightarrow> None
                   | Inr al \<Rightarrow>
                       (case get_balance w al of
                          Inl e \<Rightarrow> None
                        | Inr wei \<Rightarrow> Some (Div_1e18 wei)))))
       addrs Map.empty"

definition build_row :: "scan_state \<Rightarrow> (string \<rightharpoonup> py_float option) \<Rightarrow> string \<Rightarrow> stats_row" where
  "build_row st balances a =
     (let ext_sent = get_or (acc_sent_txs st) a 0;
          ext_recv = get_or (acc_received_txs st) a 0;
          ext_to_contract = get_or (acc_sent_to_contract_txs st) a 0;
          internal_recv = get_or (acc_internal_recv_from_contract_txs st) a 0
      in \<lparr>address = a,
          eth_balance = get_or balances a None,
          total_txs = ext_sent + ext_recv + internal_recv,
          sent_txs = ext_sent,
          received_txs = ext_recv,
          sent_to_contract_txs = ext_to_contract,
          received_from_contract_txs = internal_recv,
          external_txs = ext_sent + ext_recv,
          internal_txs = internal_recv\<rparr>)"

definition addr_list :: "scan_state \<Rightarrow> int \<Rightarrow> string list" where
  "addr_list st balance_limit =
     (let sorted_addrs = sorted_list_of_set (seen_addrs st)
      in if 0 < balance_limit then take (nat balance_limit) sorted_addrs else sorted_addrs)"

definition scan_range ::
  "w3 \<Rightarrow> int \<Rightarrow> int \<Rightarrow> bool \<Rightarrow> bool \<Rightarrow> int \<Rightarrow> bool \<Rightarrow> exn + stats_row list"
where
  "scan_range w start_block end_block check_success with_balances balance_limit trace_enabled =
     (case scan_blocks w check_success trace_enabled [start_block..end_block] init_state of
        Inl e \<Rightarrow> Inl e
      | Inr st \<Rightarrow>
          (let addrs = addr_list st balance_limit;
               balances = (if with_balances then get_balances w addrs else Map.empty)
           in Inr (map (build_row st balances) addrs)))"

section \<open>The Etherscan batch script\<close>

text \<open>
  \<open>batch_eth_stats_ai.py\<close> reads one address at a time from the Etherscan API. Its calls
  are wrapped by \<open>backoff.on_exception\<close>, which runs the function again when it raises
  \<open>RequestException\<close> until a time limit is reached: the model gives \<open>is_contract\<close> the
  number of further runs that the limit allows, and the answer of the API to each run.
  The transaction lists and the balance are taken as the final results of their wrapped
  calls. A transaction is the three fields the script reads, \<open>None\<close> for a missing or
  null field.
\<close>

record api_tx =
  is_error :: "string option"
  api_from :: "string option"
  api_to :: "string option"

datatype api_exn = RequestException | OtherError exn

record etherscan =
  balance_of :: "string \<Rightarrow> api_exn + int"
  external_txs_of :: "string \<Rightarrow> api_exn + api_tx list"
  internal_txs_of :: "string \<Rightarrow> api_exn + api_tx list"
  code_of :: "string \<Rightarrow> nat \<Rightarrow> api_exn + json"
  retries_allowed :: nat

record api_contract_outcome =
  api_answer :: "api_exn + bool"
  api_cache_after :: "string \<rightharpoonup> bool"
  api_lookups :: nat

text \<open>One run of the body of \<open>is_contract\<close>, \<open>run\<close> being the number of the run.\<close>

definition is_contract_body ::
  "etherscan \<Rightarrow> nat \<Rightarrow> string \<Rightarrow> (string \<rightharpoonup> bool) \<Rightarrow> api_contract_outcome"
where
  "is_contract_body es run addr cache =
     (let al = lower addr in
      case cache al of
        Some b \<Rightarrow> \<lparr>api_answer = Inr b, api_cache_after = cache, api_lookups = 0\<rparr>
      | None \<Rightarrow>
          (case code_of es addr run of
             Inl e \<Rightarrow> \<lparr>api_answer = Inl e, api_cache_after = cache, api_lookups = 1\<rparr>
           | Inr (JDict data) \<Rightarrow>
               (let code = py_get data ''result'' (JStr ''0x'');
                    ok = (code \<noteq> JNull \<and> code \<noteq> JStr ''0x'')
                in \<lparr>api_answer = Inr ok, api_cache_after = cache(al \<mapsto> ok), api_lookups = 1\<rparr>)
           | Inr _ \<Rightarrow>
               \<lparr>api_answer = Inl (OtherError AttributeError), api_cache_after = cache,
                api_lookups = 1\<rparr>))"

fun is_contract_runs ::
  "etherscan \<Rightarrow> nat \<Rightarrow> nat \<Rightarrow> string \<Rightarrow> (string \<rightharpoonup> bool) \<Rightarrow> api_contract_outcome"
where
  "is_contract_runs es run 0 addr cache = is_contract_body es run addr cache"
| "is_contract_runs es run (Suc left) addr cache =
     (let oc = is_contract_body es run addr cache
      in if api_answer oc = Inl RequestException
         then (let rest = is_contract_runs es (Suc run) left addr (api_cache_after oc)
               in rest\<lparr>api_lookups := api_lookups oc + api_lookups rest\<rparr>)
         else oc)"

definition is_contract_api :: "etherscan \<Rightarrow> string \<Rightarrow> (string \<rightharpoonup> bool) \<Rightarrow> api_contract_outcome" where
  "is_contract_api es addr cache = is_contract_runs es 0 (retries_allowed es) addr cache"

text \<open>The counters of \<open>classify_for_address\<close> during the loop over the external transactions.\<close>

record counters =
  sent_external :: int
  received_external :: int
  sent_to_contract :: int
  received_from_contract :: int

fun classify_external ::
  "etherscan \<Rightarrow> string \<Rightarrow> api_tx list \<Rightarrow> counters \<Rightarrow> (string \<rightharpoonup> bool)
     \<Rightarrow> api_exn + counters \<times> (string \<rightharpoonup> bool)"
where
  "classify_external es addr [] cs cache = Inr (cs, cache)"
| "classify_external es addr (t # ts) cs cache =
     (if is_error t = Some ''1'' then classify_external es addr ts cs cache
      else
        (let frm = lower (case api_from t of None \<Rightarrow> [] | Some a \<Rightarrow> a);
             to = lower (case api_to t of None \<Rightarrow> [] | Some a \<Rightarrow> a)
         in if frm = addr then
              (if to \<noteq> [] then
                 (let oc = is_contract_api es to cache
                  in case api_answer oc of
                       Inl e \<Rightarrow> Inl e
                     | Inr True \<Rightarrow>
                         classify_external es addr ts
                           (cs\<lparr>sent_to_contract := sent_to_contract cs + 1\<rparr>) (api_cache_after oc)
                     | Inr False \<Rightarrow>
                         classify_external es addr ts
                           (cs\<lparr>sent_external := sent_external cs + 1\<rparr>) (api_cache_after oc))
               else classify_external es addr ts cs cache)
            else if to = addr then
              classify_external es addr ts (cs\<lparr>received_external := received_external cs + 1\<rparr>) cache
            else classify_external es addr ts cs cache))"

fun classify_internal :: "string \<Rightarrow> api_tx list \<Rightarrow> counters \<Rightarrow> counters" where
  "classify_internal addr [] cs = cs"
| "classify_internal addr (t # ts) cs =
     (if is_error t = Some ''1'' then classify_internal addr ts cs
      else if lower (case api_to t of None \<Rightarrow> [] | Some a \<Rightarrow> a) = addr
           then classify_internal addr ts (cs\<lparr>received_from_contract := received_from_contract cs + 1\<rparr>)
           else classify_internal addr ts cs)"

definition classify_for_address ::
  "etherscan \<Rightarrow> string \<Rightarrow> (string \<rightharpoonup> bool) \<Rightarrow> api_exn + stats_row \<times> (string \<rightharpoonup> bool)"
where
  "classify_for_address es addr0 cache =
     (let addr = lower addr0 in
      case balance_of es addr0 of
        Inl e \<Rightarrow> Inl e
      | Inr balance \<Rightarrow>
          (case external_txs_of es addr0 of
             Inl e \<Rightarrow> Inl e
           | Inr ext \<Rightarrow>
               (case internal_txs_of es addr0 of
                  Inl e \<Rightarrow> Inl e
                | Inr internal \<Rightarrow>
                    (case classify_external es addr ext
                            \<lparr>sent_external = 0, received_external = 0, sent_to_contract = 0,
                             received_from_contract = 0\<rparr> cache of
                       Inl e \<Rightarrow> Inl e
                     | Inr (cs1, cache') \<Rightarrow>
                         (let cs = classify_internal addr internal cs1;
                              total = int (length ext) + int (length internal)
                          in Inr (\<lparr>address = addr0,
                                   eth_balance = Some (Round_8 (Div_1e18 balance)),
                                   total_txs = total,
                                   sent_txs = sent_external cs,
                                   received_txs = received_external cs,
                                   sent_to_contract_txs = sent_to_contract cs,
                                   received_from_contract_txs = received_from_contract cs,
                                   external_txs = int (length ext),
                                   internal_txs = int (length internal)\<rparr>, cache'))))))"

text \<open>
  The transactions that the loops of \<open>classify_for_address\<close> count for the lower-cased
  address \<open>addr\<close>: a successful external transaction sent by it to some recipient, one
  received by it from another sender, and a successful internal transaction to it.
\<close>

definition lowered :: "string option \<Rightarrow> string" where
  "lowered a = lower (case a of None \<Rightarrow> [] | Some s \<Rightarrow> s)"

definition counted_sent :: "string \<Rightarrow> api_tx \<Rightarrow> bool" where
  "counted_sent addr t \<longleftrightarrow>
     is_error t \<noteq> Some ''1'' \<and> lowered (api_from t) = addr \<and> lowered (api_to t) \<noteq> []"

definition counted_received :: "string \<Rightarrow> api_tx \<Rightarrow> bool" where
  "counted_received addr t \<longleftrightarrow>
     is_error t \<noteq> Some ''1'' \<and> lowered (api_from t) \<noteq> addr \<and> lowered (api_to t) = addr"

definition counted_internal :: "string \<Rightarrow> api_tx \<Rightarrow> bool" where
  "counted_internal addr t \<longleftrightarrow> is_error t \<noteq> Some ''1'' \<and> lowered (api_to t) = addr"

section \<open>The high-performance scanner: the scan\<close>


section \<open>The high-performance scanner: tracing a block\<close>

definition trace_block ::
  "transport \<Rightarrow> client \<Rightarrow> string \<Rightarrow> (exn + string option \<times> json) \<times> client"
where
  "trace_block tr c bn_hex =
     (let (res, c') = call tr c ''trace_block'' [JStr bn_hex]
      in (case res of Inl e \<Rightarrow> Inl e | Inr r \<Rightarrow> Inr (Some ''trace_block'', r), c'))"

definition debug_trace_block ::
  "transport \<Rightarrow> client \<Rightarrow> string \<Rightarrow> (exn + string option \<times> json) \<times> client"
where
  "debug_trace_block tr c bn_hex =
     (let params = [JStr bn_hex, JDict [(''tracer'', JStr ''callTracer''), (''timeout'', JStr ''20s'')]];
          (res, c') = call tr c ''debug_traceBlockByNumber'' params
      in (case res of Inl e \<Rightarrow> Inl e | Inr r \<Rightarrow> Inr (Some ''debug_trace'', r), c'))"

definition try_trace_one_block ::
  "transport \<Rightarrow> client \<Rightarrow> int \<Rightarrow> (string option \<times> json) \<times> client"
where
  "try_trace_one_block tr c bn =
     (let bn_hex = py_hex bn;
          (r1, c1) = trace_block tr c bn_hex
      in case r1 of
           Inr found \<Rightarrow> (found, c1)
         | Inl e1 \<Rightarrow>
             (let (r2, c2) = debug_trace_block tr c1 bn_hex
              in case r2 of
                   Inr found \<Rightarrow> (found, c2)
                 | Inl e2 \<Rightarrow> ((None, JNull), c2)))"

section \<open>Sample providers\<close>

text \<open>
  A node that serves, for every block, one transaction from \<open>0xBB\<close> to \<open>0xAA\<close>, no code at
  any address and no trace method; and an Etherscan account with one failed transaction.
\<close>

definition demo_w3 :: w3 where
  "demo_w3 =
     \<lparr>get_block = (\<lambda>bn. Inr [\<lparr>tx_from = ''0xBB'', tx_to = Some ''0xAA'', tx_hash = ''0x01''\<rparr>]),
      get_code = (\<lambda>a. Inr []),
      get_balance = (\<lambda>a. Inr 7),
      receipt_status = (\<lambda>h. Inr 1),
      make_request = (\<lambda>m p. Inl (RuntimeError ''method not found'')),
      to_checksum_address = (\<lambda>a. Inr a),
      recursion_room = 900\<rparr>"

definition demo_etherscan :: etherscan where
  "demo_etherscan =
     \<lparr>balance_of = (\<lambda>a. Inr 7),
      external_txs_of =
        (\<lambda>a. Inr [\<lparr>is_error = Some ''1'', api_from = Some ''0xaa'', api_to = Some ''0xbb''\<rparr>]),
      internal_txs_of = (\<lambda>a. Inr []),
      code_of = (\<lambda>a run. Inr (JDict [(''result'', JStr ''0x'')])),
      retries_allowed = 0\<rparr>"

definition failed_tx_row :: stats_row where
  "failed_tx_row =
     \<lparr>address = ''0xAA'', eth_balance = Some (Round_8 (Div_1e18 7)), total_txs = 1, sent_txs = 0, received_txs = 0,
      sent_to_contract_txs = 0, received_from_contract_txs = 0, external_txs = 1,
      internal_txs = 0\<rparr>"

definition row_aa :: stats_row where
  "row_aa =
     \<lparr>address = ''0xaa'', eth_balance = Some (Div_1e18 7), total_txs = 1, sent_txs = 0, received_txs = 1,
      sent_to_contract_txs = 0, received_from_contract_txs = 0, external_txs = 1,
      internal_txs = 0\<rparr>"

definition row_bb :: stats_row where
  "row_bb =
     \<lparr>address = ''0xbb'', eth_balance = Some (Div_1e18 7), total_txs = 1, sent_txs = 1, received_txs = 0,
      sent_to_contract_txs = 0, received_from_contract_txs = 0, external_txs = 1,
      internal_txs = 0\<rparr>"

text \<open>The same node with code deployed at \<open>0xbb\<close>.\<close>

definition code_at_bb :: w3 where
  "code_at_bb = demo_w3\<lparr>get_code := (\<lambda>a. if a = ''0xbb'' then Inr ''code'' else Inr [])\<rparr>"


text \<open>A node that has only the call-tree trace method.\<close>

definition geth_like :: w3 where
  "geth_like =
     demo_w3\<lparr>make_request :=
       (\<lambda>m p. if m = ''debug_traceBlockByNumber''
              then Inr (JDict [(''result'', JList [JDict [(''result'',
                     JDict [(''to'', JStr ''0xAA''), (''value'', JStr ''0xa'')])]])])
              else Inl (RuntimeError ''method not found''))\<rparr>"

text \<open>
  A node that has both trace methods, and the flat list and the call tree it serves for
  a block in which \<open>0xAA\<close> receives 10 wei from a contract.
\<close>

definition flat_trace :: json where
  "flat_trace =
     JList [JDict [(''type'', JStr ''call''),
                   (''action'', JDict [(''to'', JStr ''0xAA''), (''value'', JStr ''0xa'')])]]"

definition tree_trace :: json where
  "tree_trace =
     JList [JDict [(''result'', JDict [(''to'', JStr ''0xAA''), (''value'', JStr ''0xa'')])]]"

definition erigon_like :: w3 where
  "erigon_like =
     demo_w3\<lparr>make_request :=
       (\<lambda>m p. if m = ''trace_block'' then Inr (JDict [(''result'', flat_trace)])
              else if m = ''debug_traceBlockByNumber'' then Inr (JDict [(''result'', tree_trace)])
              else Inl (RuntimeError ''method not found''))\<rparr>"

text \<open>
  Transports for the high-performance client: one answers \<open>trace_block\<close> and
  \<open>debug_traceBlockByNumber\<close>, the other answers \<open>trace_block\<close> with an error object.
\<close>

definition method_of :: "json \<Rightarrow> json" where
  "method_of payload = (case payload of JDict d \<Rightarrow> py_get d ''method'' JNull | _ \<Rightarrow> JNull)"

definition tracing_transport :: transport where
  "tracing_transport =
     (\<lambda>attempt url payload.
        if method_of payload = JStr ''trace_block'' then Some (JDict [(''result'', flat_trace)])
        else Some (JDict [(''result'', tree_trace)]))"

definition tree_only_transport :: transport where
  "tree_only_transport =
     (\<lambda>attempt url payload.
        if method_of payload = JStr ''trace_block''
        then Some (JDict [(''error'', JStr ''method not found'')])
        else Some (JDict [(''result'', tree_trace)]))"

text \<open>
  An Etherscan account \<open>0xAA\<close> with a transfer to \<open>0xbb\<close>, a call of the contract \<open>0xcc\<close>, a
  contract creation, a failed transfer, a transfer received, and two internal
  transactions, one of them to it.
\<close>

definition busy_etherscan :: etherscan where
  "busy_etherscan =
     \<lparr>balance_of = (\<lambda>a. Inr 7),
      external_txs_of =
        (\<lambda>a. Inr [\<lparr>is_error = Some ''0'', api_from = Some ''0xaa'', api_to = Some ''0xbb''\<rparr>,
                  \<lparr>is_error = Some ''0'', api_from = Some ''0xaa'', api_to = Some ''0xcc''\<rparr>,
                  \<lparr>is_error = Some ''0'', api_from = Some ''0xaa'', api_to = Some ''''\<rparr>,
                  \<lparr>is_error = Some ''1'', api_from = Some ''0xaa'', api_to = Some ''0xbb''\<rparr>,
                  \<lparr>is_error = Some ''0'', api_from = Some ''0xdd'', api_to = Some ''0xAA''\<rparr>]),
      internal_txs_of =
        (\<lambda>a. Inr [\<lparr>is_error = Some ''0'', api_from = Some ''0xcc'', api_to = Some ''0xaa''\<rparr>,
                  \<lparr>is_error = Some ''0'', api_from = Some ''0xcc'', api_to = Some ''0xee''\<rparr>]),
      code_of =
        (\<lambda>a run. if a = ''0xcc'' then Inr (JDict [(''result'', JStr ''0x6080'')])
                  else Inr (JDict [(''result'', JStr ''0x'')])),
      retries_allowed = 0\<rparr>"

definition busy_row :: stats_row where
  "busy_row =
     \<lparr>address = ''0xAA'', eth_balance = Some (Round_8 (Div_1e18 7)), total_txs = 7,
      sent_txs = 1, received_txs = 1, sent_to_contract_txs = 1,
      received_from_contract_txs = 1, external_txs = 5, internal_txs = 2\<rparr>"

section \<open>Properties of the transport\<close>


























section \<open>Batched calls are matched by id\<close>

lemma request_id_envelope [simp]: "request_id (envelope i m p) = i"
  by (simp add: request_id_def envelope_def py_get_def)

lemma batch_requests_ids:
  "map request_id (fst (batch_requests c calls)) = [last_id c + 1..last_id c + int (length calls)]"
proof (induction calls arbitrary: c)
  case Nil
  then show ?case by simp
next
  case (Cons x calls)
  obtain m p where x: "x = (m, p)" by (cases x)
  let ?c1 = "c\<lparr>last_id := last_id c + 1\<rparr>"
  have "map request_id (fst (batch_requests ?c1 calls)) =
      [last_id c + 1 + 1..last_id c + 1 + int (length calls)]"
    using Cons.IH[of ?c1] by simp
  moreover have "[last_id c + 1..last_id c + int (length (x # calls))] =
      (last_id c + 1) # [last_id c + 1 + 1..last_id c + 1 + int (length calls)]"
    by (subst upto_rec1) (simp_all add: add.commute add.left_commute)
  ultimately show ?case
    by (simp add: x next_id_def case_prod_beta)
qed

lemma batch_requests_length: "length (fst (batch_requests c calls)) = length calls"
proof -
  have "length (map request_id (fst (batch_requests c calls))) = length calls"
    by (simp only: batch_requests_ids) simp
  then show ?thesis by simp
qed

lemma batch_requests_distinct: "distinct (map request_id (fst (batch_requests c calls)))"
  by (simp only: batch_requests_ids distinct_upto)

lemma by_id_dicts:
  assumes "\<forall>d\<in>set ds. \<exists>i. py_get d ''id'' JNull = JInt i"
  shows "by_id (map JDict ds) = Inr (map (\<lambda>d. (py_get d ''id'' JNull, d)) ds)"
  using assms by (induction ds) auto

lemma filter_eq_nth_distinct:
  assumes "distinct (map f xs)" "j < length xs"
  shows "filter (\<lambda>x. f x = f (xs ! j)) xs = [xs ! j]"
  using assms
proof (induction xs arbitrary: j)
  case Nil
  then show ?case by simp
next
  case (Cons x xs)
  show ?case
  proof (cases j)
    case 0
    have "filter (\<lambda>y. f y = f x) xs = []"
      using Cons.prems(1) by (auto simp: filter_empty_conv image_iff)
    then show ?thesis using 0 by simp
  next
    case (Suc k)
    then have k: "k < length xs" using Cons.prems(2) by simp
    then have "f x \<noteq> f (xs ! k)" using Cons.prems(1) by (auto simp: image_iff)
    then show ?thesis using Suc Cons.IH[of k] Cons.prems(1) k by simp
  qed
qed

lemma singleton_of_mset: "mset xs = {#x#} \<Longrightarrow> xs = [x]"
  by (cases xs) auto

lemma by_id_get_perm:
  assumes perm: "mset ds' = mset ds"
    and dist: "distinct (map (\<lambda>d. py_get d ''id'' JNull) ds)"
    and j: "j < length ds"
    and idj: "py_get (ds ! j) ''id'' JNull = JInt i"
    and ints: "\<forall>d\<in>set ds. \<exists>i. py_get d ''id'' JNull = JInt i"
  shows "by_id_get (map (\<lambda>d. (py_get d ''id'' JNull, d)) ds') i = ds ! j"
proof -
  let ?f = "\<lambda>d. py_get d ''id'' JNull"
  let ?P = "\<lambda>d. ?f d = ?f (ds ! j)"
  have same: "\<And>d. d \<in> set ds \<Longrightarrow> eq_int (?f d) i = ?P d"
    using ints idj by (metis eq_int.simps(1) json.inject(2))
  have setds: "set ds' = set ds" using perm by (rule mset_eq_setD)
  have "filter (\<lambda>(k, d). eq_int k i) (rev (map (\<lambda>d. (?f d, d)) ds')) =
        map (\<lambda>d. (?f d, d)) (rev (filter (\<lambda>d. eq_int (?f d) i) ds'))"
    by (simp add: rev_map filter_map comp_def rev_filter)
  also have "filter (\<lambda>d. eq_int (?f d) i) ds' = filter ?P ds'"
    using same setds by (intro filter_cong) auto
  also have "filter ?P ds' = [ds ! j]"
  proof -
    have "mset (filter ?P ds') = mset (filter ?P ds)" using perm by simp
    also have "filter ?P ds = [ds ! j]" using dist j by (rule filter_eq_nth_distinct)
    finally show ?thesis by (simp add: singleton_of_mset)
  qed
  finally show ?thesis by (simp add: by_id_get_def)
qed

lemma mset_map_JDict:
  assumes "mset items = mset (map JDict ds)"
  shows "\<exists>ds'. items = map JDict ds' \<and> mset ds' = mset ds"
proof -
  have "\<forall>x\<in>set items. \<exists>d. x = JDict d"
    using assms mset_eq_setD[OF assms] by auto
  then obtain ds' where i: "items = map JDict ds'"
    by (induction items) (auto, metis list.simps(9))
  then have "image_mset JDict (mset ds') = image_mset JDict (mset ds)" using assms by simp
  then have "mset ds' = mset ds"
    by (metis (no_types) inj_onI json.inject(5) multiset.inj_map_strong)
  then show ?thesis using i by blast
qed

lemma batch_decode_by_id:
  assumes perm: "mset items = mset (map JDict ds)"
    and ans: "list_all2 (\<lambda>r d. py_get d ''id'' JNull = JInt (request_id r)) req ds"
    and dist: "distinct (map request_id req)"
  shows "batch_decode req (JList items) = Inr (map render_item ds)"
proof -
  let ?f = "\<lambda>d. py_get d ''id'' JNull"
  from mset_map_JDict[OF perm] obtain ds' where i: "items = map JDict ds'" and p: "mset ds' = mset ds"
    by blast
  have len: "length req = length ds" using ans by (rule list_all2_lengthD)
  have nth: "\<And>j. j < length ds \<Longrightarrow> ?f (ds ! j) = JInt (request_id (req ! j))"
    using ans by (simp add: list_all2_conv_all_nth)
  have ids: "map ?f ds = map (\<lambda>r. JInt (request_id r)) req"
    using len nth by (intro nth_equalityI) simp_all
  have ints: "\<forall>d\<in>set ds. \<exists>i. ?f d = JInt i"
    using nth by (metis in_set_conv_nth)
  have ints': "\<forall>d\<in>set ds'. \<exists>i. ?f d = JInt i"
    using ints mset_eq_setD[OF p] by simp
  have d: "distinct (map ?f ds)"
    using dist by (simp add: ids distinct_map inj_on_def)
  have tbl: "by_id items = Inr (map (\<lambda>d. (?f d, d)) ds')"
    using by_id_dicts[OF ints'] i by simp
  have "map (\<lambda>r. render_item (by_id_get (map (\<lambda>d. (?f d, d)) ds') (request_id r))) req =
        map render_item ds"
  proof (intro nth_equalityI)
    show "length (map (\<lambda>r. render_item (by_id_get (map (\<lambda>d. (?f d, d)) ds') (request_id r))) req) =
          length (map render_item ds)" using len by simp
  next
    fix j assume "j < length (map (\<lambda>r. render_item (by_id_get (map (\<lambda>d. (?f d, d)) ds') (request_id r))) req)"
    then have j: "j < length ds" using len by simp
    from by_id_get_perm[OF p d j nth[OF j] ints]
    show "map (\<lambda>r. render_item (by_id_get (map (\<lambda>d. (?f d, d)) ds') (request_id r))) req ! j =
          map render_item ds ! j" using j len by simp
  qed
  then show ?thesis using tbl by (simp add: batch_decode_def)
qed

lemma rpc_error_raises: "rpc_error prefix err \<noteq> Inr x"
  by (simp add: rpc_error_def split: sum.splits)

lemma batch_decode_length: "batch_decode req res = Inr out \<Longrightarrow> length out = length req"
  by (auto simp: batch_decode_def rpc_error_raises split: json.splits sum.splits if_splits)

lemma batch_length: "fst (batch tr c calls) = Inr out \<Longrightarrow> length out = length calls"
  using batch_requests_length[of c calls]
  by (auto simp: batch_def Let_def case_prod_beta split: sum.splits if_splits dest!: batch_decode_length)

text \<open>
  C2. Whatever the order of the response array, as long as it holds one response per
  request carrying that request's id, \<open>batch\<close> returns one entry per call and the entry at
  position \<open>i\<close> is the content of the response to request \<open>i\<close>: its result, or the marker
  \<open>{"error": ...}\<close> when the response has an error field. The ids drawn for the requests
  are consecutive, hence distinct.
\<close>

theorem batch_results_by_id:
  assumes "returned (post tr (snd (batch_requests c calls)) (JList (fst (batch_requests c calls))))
             = Inr (JList items)"
    and "mset items = mset (map JDict ds)"
    and "list_all2 (\<lambda>r d. py_get d ''id'' JNull = JInt (request_id r)) (fst (batch_requests c calls)) ds"
  shows "fst (batch tr c calls) = Inr (map render_item ds)
       \<and> length (map render_item ds) = length calls
       \<and> map request_id (fst (batch_requests c calls)) = [last_id c + 1..last_id c + int (length calls)]"
proof -
  have len: "length ds = length calls"
    using assms(3) batch_requests_length[of c calls] by (auto dest: list_all2_lengthD)
  have "fst (batch tr c calls) = Inr (map render_item ds)"
  proof (cases "calls = []")
    case True
    then show ?thesis using len by (simp add: batch_def)
  next
    case False
    then show ?thesis
      using assms(1) batch_decode_by_id[OF assms(2) assms(3) batch_requests_distinct]
      by (simp add: batch_def Let_def case_prod_beta)
  qed
  then show ?thesis using len batch_requests_ids by simp
qed

theorem batch_results_by_id_witness:
  "fst (batch (fails_first 0 (JList [JDict [(''id'', JInt 2), (''result'', JStr ''b'')],
                                     JDict [(''id'', JInt 1), (''error'', JStr ''boom'')]]))
          two_endpoints [(''eth_getCode'', []), (''eth_getCode'', [])])
     = Inr [JDict [(''error'', JStr ''boom'')], JStr ''b'']"
  using batch_results_by_id[of "fails_first 0 (JList [JDict [(''id'', JInt 2), (''result'', JStr ''b'')],
        JDict [(''id'', JInt 1), (''error'', JStr ''boom'')]])" two_endpoints
      "[(''eth_getCode'', []), (''eth_getCode'', [])]"
      "[JDict [(''id'', JInt 2), (''result'', JStr ''b'')], JDict [(''id'', JInt 1), (''error'', JStr ''boom'')]]"
      "[ [(''id'', JInt 1), (''error'', JStr ''boom'')], [(''id'', JInt 2), (''result'', JStr ''b'')]]"]
  by (simp add: fails_first_def two_endpoints_def post_def upto_rec1 next_id_def py_get_def
      render_item_def has_key_def cur_endpoint_def)

section \<open>\<open>fetch_blocks\<close> keeps the order of the request\<close>



lemma request_params_envelope [simp]: "request_params (envelope i m p) = JList p"
  by (simp add: request_params_def envelope_def py_get_def)











section \<open>Reading quantities\<close>

lemma lt16:
  "(d::nat) < 16 \<Longrightarrow> d = 0 \<or> d = 1 \<or> d = 2 \<or> d = 3 \<or> d = 4 \<or> d = 5 \<or> d = 6 \<or> d = 7 \<or>
     d = 8 \<or> d = 9 \<or> d = 10 \<or> d = 11 \<or> d = 12 \<or> d = 13 \<or> d = 14 \<or> d = 15"
  by arith

lemma digit_value_digit_char: "d < 16 \<Longrightarrow> digit_value (digit_char d) = Some d"
  using lt16[of d] by (auto simp: digit_value_def digit_char_def)

lemma digit_char_plain:
  "d < 16 \<Longrightarrow> digit_char d \<noteq> CHR ''_'' \<and> \<not> is_space (digit_char d) \<and> digit_char d \<noteq> CHR ''x''
     \<and> digit_char d \<noteq> CHR ''+'' \<and> digit_char d \<noteq> CHR ''-''"
  using lt16[of d] by (auto simp: digit_char_def is_space_def)

lemma hex_digits_plain: "plain_digits 16 (hex_digits n)"
proof (induction n rule: hex_digits.induct)
  case (1 n)
  show ?case
  proof (cases "n < 16")
    case True
    then have "hex_digits n = [digit_char n]" by (subst hex_digits.simps) simp
    then show ?thesis using True by (simp add: plain_digits_def)
  next
    case False
    then have e: "hex_digits n = hex_digits (n div 16) @ [digit_char (n mod 16)]"
      by (subst hex_digits.simps) simp
    have "n mod 16 \<in> {d. d < 16 \<and> d < 16}" by simp
    then have "digit_char (n mod 16) \<in> digit_char ` {d. d < 16 \<and> d < 16}" by (rule imageI)
    then show ?thesis using 1[OF False] by (simp add: e plain_digits_def)
  qed
qed

lemma dec_digits_plain: "plain_digits 10 (dec_digits n)"
proof (induction n rule: dec_digits.induct)
  case (1 n)
  show ?case
  proof (cases "n < 10")
    case True
    then have "hd_ok": "n \<in> {d. d < 16 \<and> d < 10}" by simp
    have "dec_digits n = [digit_char n]" using True by (subst dec_digits.simps) simp
    then show ?thesis using imageI[OF hd_ok, of digit_char] by (simp add: plain_digits_def)
  next
    case False
    then have e: "dec_digits n = dec_digits (n div 10) @ [digit_char (n mod 10)]"
      by (subst dec_digits.simps) simp
    have "n mod 10 < 10" by simp
    then have "n mod 10 \<in> {d. d < 16 \<and> d < 10}" by simp
    then have "digit_char (n mod 10) \<in> digit_char ` {d. d < 16 \<and> d < 10}" by (rule imageI)
    then show ?thesis using 1[OF False] by (simp add: e plain_digits_def)
  qed
qed

lemma hex_digits_nonempty: "hex_digits n \<noteq> []"
  by (subst hex_digits.simps) simp

lemma dec_digits_nonempty: "dec_digits n \<noteq> []"
  by (subst dec_digits.simps) simp

lemma parse_digits_hex:
  "parse_digits 16 (hex_digits n @ rest) acc us =
     parse_digits 16 rest (acc * 16 ^ length (hex_digits n) + n) False"
proof (induction n arbitrary: rest acc us rule: hex_digits.induct)
  case (1 n)
  show ?case
  proof (cases "n < 16")
    case True
    then show ?thesis
      using digit_value_digit_char[of n] digit_char_plain[of n]
      by (subst (1 2) hex_digits.simps) simp
  next
    case False
    have m: "n mod 16 < 16" by simp
    have "parse_digits 16 (hex_digits n @ rest) acc us =
          parse_digits 16 (hex_digits (n div 16) @ (digit_char (n mod 16) # rest)) acc us"
      using False by (subst hex_digits.simps) simp
    also have "\<dots> = parse_digits 16 (digit_char (n mod 16) # rest)
          (acc * 16 ^ length (hex_digits (n div 16)) + n div 16) False"
      using 1[OF False] by simp
    also have "\<dots> = parse_digits 16 rest
          ((acc * 16 ^ length (hex_digits (n div 16)) + n div 16) * 16 + n mod 16) False"
      using digit_value_digit_char[OF m] digit_char_plain[OF m] by simp
    also have "(acc * 16 ^ length (hex_digits (n div 16)) + n div 16) * 16 + n mod 16 =
          acc * 16 ^ length (hex_digits n) + n"
      using False by (subst (2) hex_digits.simps) (simp add: algebra_simps)
    finally show ?thesis .
  qed
qed

lemma parse_digits_dec:
  "parse_digits 10 (dec_digits n @ rest) acc us =
     parse_digits 10 rest (acc * 10 ^ length (dec_digits n) + n) False"
proof (induction n arbitrary: rest acc us rule: dec_digits.induct)
  case (1 n)
  show ?case
  proof (cases "n < 10")
    case True
    then show ?thesis
      using digit_value_digit_char[of n] digit_char_plain[of n]
      by (subst (1 2) dec_digits.simps) simp
  next
    case False
    have m: "n mod 10 < 16" using mod_less_divisor[of 10 n] by simp
    have "parse_digits 10 (dec_digits n @ rest) acc us =
          parse_digits 10 (dec_digits (n div 10) @ (digit_char (n mod 10) # rest)) acc us"
      using False by (subst dec_digits.simps) simp
    also have "\<dots> = parse_digits 10 (digit_char (n mod 10) # rest)
          (acc * 10 ^ length (dec_digits (n div 10)) + n div 10) False"
      using 1[OF False] by simp
    also have "\<dots> = parse_digits 10 rest
          ((acc * 10 ^ length (dec_digits (n div 10)) + n div 10) * 10 + n mod 10) False"
      using digit_value_digit_char[OF m] digit_char_plain[OF m] by simp
    also have "(acc * 10 ^ length (dec_digits (n div 10)) + n div 10) * 10 + n mod 10 =
          acc * 10 ^ length (dec_digits n) + n"
      using False by (subst (2) dec_digits.simps) (simp add: algebra_simps)
    finally show ?thesis .
  qed
qed

lemma plain_digits_chars:
  assumes "plain_digits b s" "c \<in> set s"
  shows "\<not> is_space c \<and> c \<noteq> CHR ''_'' \<and> c \<noteq> CHR ''+'' \<and> c \<noteq> CHR ''-'' \<and> c \<noteq> CHR ''x''"
proof -
  from assms obtain d where "d < 16" "c = digit_char d"
    unfolding plain_digits_def by blast
  then show ?thesis using digit_char_plain[of d] by simp
qed

lemma dropWhile_none: "\<forall>c\<in>set s. \<not> P c \<Longrightarrow> dropWhile P s = s"
  by (cases s) simp_all

lemma strip_plain:
  assumes "plain_digits b s"
  shows "rev (dropWhile is_space (rev s)) = s"
proof -
  have "\<forall>c\<in>set (rev s). \<not> is_space c" using plain_digits_chars[OF assms] by simp
  then have "dropWhile is_space (rev s) = rev s" by (rule dropWhile_none)
  then show ?thesis by simp
qed

lemma space_0: "\<not> is_space (CHR ''0'')"
  by (simp add: is_space_def)

lemma not_starts_with_char: "ds \<noteq> [] \<Longrightarrow> hd ds \<noteq> c \<Longrightarrow> \<not> starts_with ds [c]"
  by (cases ds) (simp_all add: starts_with_def)

lemma py_int_str_plain:
  assumes ne: "ds \<noteq> []" and p: "plain_digits b ds" and pd: "parse_digits b ds 0 False = Some n"
  shows "b \<noteq> 16 \<Longrightarrow> length ds \<le> max_str_digits \<Longrightarrow> py_int_str b ds = Some (int n)"
    and "b \<noteq> 16 \<Longrightarrow> max_str_digits < length ds \<Longrightarrow> py_int_str b ds = None"
    and "b = 16 \<Longrightarrow> py_int_str b (CHR ''0'' # CHR ''x'' # ds) = Some (int n)"
proof -
  have hd: "\<not> is_space (hd ds) \<and> hd ds \<noteq> CHR ''_'' \<and> hd ds \<noteq> CHR ''+'' \<and> hd ds \<noteq> CHR ''-'' \<and> hd ds \<noteq> CHR ''x''"
    using plain_digits_chars[OF p, of "hd ds"] ne by simp
  have f1: "dropWhile is_space ds = ds" using hd ne by (cases ds) simp_all
  have f2: "\<not> starts_with ds ''-''" "\<not> starts_with ds ''+''" "\<not> starts_with ds ''_''"
    using hd ne by (simp_all add: not_starts_with_char)
  have f3: "\<not> starts_with ds ''0x''" "\<not> starts_with ds ''0X''"
  proof -
    have x: "CHR ''x'' \<notin> set ds" "CHR ''X'' \<notin> set ds"
    proof -
      show "CHR ''x'' \<notin> set ds" using plain_digits_chars[OF p] by blast
      show "CHR ''X'' \<notin> set ds"
      proof
        assume "CHR ''X'' \<in> set ds"
        then obtain d where "d < 16" "CHR ''X'' = digit_char d"
          using p unfolding plain_digits_def by blast
        then show False using lt16[of d] by (auto simp: digit_char_def)
      qed
    qed
    have t: "\<And>q. starts_with ds [CHR ''0'', q] \<Longrightarrow> q \<in> set ds"
    proof -
      fix q assume "starts_with ds [CHR ''0'', q]"
      then have "take (Suc (Suc 0)) ds = [CHR ''0'', q]" by (simp add: starts_with_def)
      then have "q \<in> set (take (Suc (Suc 0)) ds)" by simp
      then show "q \<in> set ds" by (rule in_set_takeD)
    qed
    show "\<not> starts_with ds ''0x''" using t[of "CHR ''x''"] x by blast
    show "\<not> starts_with ds ''0X''" using t[of "CHR ''X''"] x by blast
  qed
  have f4: "rev (dropWhile is_space (rev ds)) = ds" using p by (rule strip_plain)
  have f5: "filter (\<lambda>c. c \<noteq> CHR ''_'') ds = ds"
    using plain_digits_chars[OF p] by (intro filter_True) blast
  show "py_int_str b ds = Some (int n)" if b: "b \<noteq> 16" and l: "length ds \<le> max_str_digits"
  proof -
    have l': "\<not> max_str_digits < length ds" using l by simp
    show ?thesis
      unfolding py_int_str_def Let_def f1
      by (simp only: f2 f3 f4 f5 pd ne b l' simp_thms if_False if_True option.case)
  qed
  show "py_int_str b ds = None" if b: "b \<noteq> 16" and l: "max_str_digits < length ds"
    unfolding py_int_str_def Let_def f1
    by (simp only: f2 f3 f4 f5 pd ne b l simp_thms if_False if_True option.case)
  have g1: "dropWhile is_space (CHR ''0'' # CHR ''x'' # ds) = CHR ''0'' # CHR ''x'' # ds"
    using space_0 by simp
  have g2: "\<not> starts_with (CHR ''0'' # CHR ''x'' # ds) ''-''" "\<not> starts_with (CHR ''0'' # CHR ''x'' # ds) ''+''"
    by (simp_all add: starts_with_def)
  have g3: "starts_with (CHR ''0'' # CHR ''x'' # ds) ''0x''" by (simp add: starts_with_def)
  have g4: "drop 2 (CHR ''0'' # CHR ''x'' # ds) = ds" by simp
  show "py_int_str b (CHR ''0'' # CHR ''x'' # ds) = Some (int n)" if b: "b = 16"
  proof -
    have pd16: "parse_digits 16 ds 0 False = Some n" using pd b by simp
    show ?thesis
      unfolding py_int_str_def Let_def g1 b
      by (simp only: g2 g3 g4 f2 f4 pd16 ne simp_thms if_False if_True option.case)
  qed
qed

lemma py_int_str_hex: "py_int_str 16 (''0x'' @ hex_digits n) = Some (int n)"
proof -
  have "parse_digits 16 (hex_digits n @ []) 0 False = Some n"
    by (simp only: parse_digits_hex) simp
  then have pd: "parse_digits 16 (hex_digits n) 0 False = Some n" by simp
  from py_int_str_plain(3)[OF hex_digits_nonempty hex_digits_plain pd] show ?thesis by simp
qed

lemma parse_dec_digits: "parse_digits 10 (dec_digits n) 0 False = Some n"
proof -
  have "parse_digits 10 (dec_digits n @ []) 0 False = Some n"
    by (simp only: parse_digits_dec) simp
  then show ?thesis by simp
qed

lemma py_int_str_dec:
  "length (dec_digits n) \<le> max_str_digits \<Longrightarrow> py_int_str 10 (dec_digits n) = Some (int n)"
  by (rule py_int_str_plain(1)[OF dec_digits_nonempty dec_digits_plain parse_dec_digits]) simp_all

lemma py_int_str_dec_long:
  "max_str_digits < length (dec_digits n) \<Longrightarrow> py_int_str 10 (dec_digits n) = None"
  by (rule py_int_str_plain(2)[OF dec_digits_nonempty dec_digits_plain parse_dec_digits]) simp_all

lemma dec_digits_short: "0 < k \<Longrightarrow> n < 10 ^ k \<Longrightarrow> length (dec_digits n) \<le> k"
proof (induction k arbitrary: n)
  case 0
  then show ?case by simp
next
  case (Suc j)
  show ?case
  proof (cases "n < 10")
    case True
    then have "dec_digits n = [digit_char n]" by (subst dec_digits.simps) simp
    then show ?thesis by simp
  next
    case False
    then have e: "dec_digits n = dec_digits (n div 10) @ [digit_char (n mod 10)]"
      by (subst dec_digits.simps) simp
    have j: "0 < j" using Suc.prems(2) False by (cases j) simp_all
    have "n < 10 * 10 ^ j" using Suc.prems(2) by simp
    then have "n div 10 < 10 ^ j" by (simp add: less_mult_imp_div_less mult.commute)
    from Suc.IH[OF j this] show ?thesis by (simp add: e)
  qed
qed

lemma dec_digits_long: "10 ^ k \<le> n \<Longrightarrow> k < length (dec_digits n)"
proof (induction k arbitrary: n)
  case 0
  then show ?case using dec_digits_nonempty[of n] by (cases "dec_digits n") simp_all
next
  case (Suc j)
  have le: "10 * 10 ^ j \<le> n" using Suc.prems by simp
  have "(1::nat) \<le> 10 ^ j" by simp
  then have ge: "\<not> n < 10" using le by linarith
  then have e: "dec_digits n = dec_digits (n div 10) @ [digit_char (n mod 10)]"
    by (subst dec_digits.simps) simp
  from le have "10 ^ j \<le> n div 10" by (simp add: less_eq_div_iff_mult_less_eq mult.commute)
  from Suc.IH[OF this] show ?case by (simp add: e)
qed


lemma str_value_hex: "0 \<le> n \<Longrightarrow> str_value (py_hex n) = Inr n"
  using py_int_str_hex[of "nat n"] by (simp add: str_value_def py_hex_def starts_with_def)

lemma dec_not_0x: "\<not> starts_with (dec_digits n) ''0x''"
proof
  assume "starts_with (dec_digits n) ''0x''"
  then have "take (Suc (Suc 0)) (dec_digits n) = ''0x''" by (simp add: starts_with_def)
  then have "CHR ''x'' \<in> set (take (Suc (Suc 0)) (dec_digits n))" by simp
  then have "CHR ''x'' \<in> set (dec_digits n)" by (rule in_set_takeD)
  then show False using plain_digits_chars[OF dec_digits_plain, of "CHR ''x''" n] by simp
qed

lemma max_str_digits_pos: "0 < max_str_digits"
  by (simp add: max_str_digits_def)

lemma str_value_dec_digits:
  "str_value (dec_digits m) =
     (if length (dec_digits m) \<le> max_str_digits then Inr (int m) else Inl ValueError)"
proof (cases "length (dec_digits m) \<le> max_str_digits")
  case True
  then show ?thesis
    using py_int_str_dec[of m] dec_digits_nonempty[of m] dec_not_0x[of m]
    by (simp add: str_value_def)
next
  case False
  then have "max_str_digits < length (dec_digits m)" by simp
  then show ?thesis
    using py_int_str_dec_long[of m] dec_digits_nonempty[of m] dec_not_0x[of m]
    by (simp add: str_value_def)
qed

lemma str_value_dec:
  assumes "0 \<le> n" "n < 10 ^ max_str_digits"
  shows "str_value (py_str_int n) = Inr n"
proof -
  have "int (nat n) < int (10 ^ max_str_digits)" using assms by simp
  then have "nat n < 10 ^ max_str_digits" by (simp only: of_nat_less_iff)
  then have "length (dec_digits (nat n)) \<le> max_str_digits"
    by (rule dec_digits_short[OF max_str_digits_pos])
  then show ?thesis
    using assms(1) by (simp add: str_value_dec_digits py_str_int_def)
qed

lemma str_value_dec_long:
  assumes "10 ^ max_str_digits \<le> n"
  shows "str_value (py_str_int n) = Inl ValueError"
proof -
  have "(0::int) \<le> 10 ^ max_str_digits" by simp
  then have n0: "0 \<le> n" using assms by linarith
  have "int (10 ^ max_str_digits) \<le> int (nat n)" using assms n0 by simp
  then have "10 ^ max_str_digits \<le> nat n" by (simp only: of_nat_le_iff)
  then have "max_str_digits < length (dec_digits (nat n))" by (rule dec_digits_long)
  then show ?thesis
    using n0 by (simp add: str_value_dec_digits py_str_int_def)
qed

section \<open>Counting internal transfers\<close>

lemma trace_loop_count:
  "trace_loop target ts cnt = cnt + int (length (filter (\<lambda>t. trace_entry target t = Inr True) ts))"
  by (induction ts arbitrary: cnt) (auto split: sum.splits bool.splits)

lemma roots_loop_append:
  "roots_loop depth target (xs @ ys) cnt =
     (case roots_loop depth target xs cnt of Inl e \<Rightarrow> Inl e | Inr c \<Rightarrow> roots_loop depth target ys c)"
  by (induction xs arbitrary: cnt) (auto split: json.splits nat.splits)

lemma trace_entry_value_cong:
  assumes "(case v1 of JStr s \<Rightarrow> (case str_value s of Inl e \<Rightarrow> Inl e | Inr i \<Rightarrow> Inr (JInt i)) | _ \<Rightarrow> Inr v1) =
           (case v2 of JStr s \<Rightarrow> (case str_value s of Inl e \<Rightarrow> Inl e | Inr i \<Rightarrow> Inr (JInt i)) | _ \<Rightarrow> Inr v2)"
  shows "trace_entry target (entry_with_value v1 a t) = trace_entry target (entry_with_value v2 a t)"
  using assms
  by (simp add: trace_entry_def entry_with_value_def py_get_def py_or_def Let_def split: sum.splits)

lemma dfs_value_cong:
  assumes "node_value v1 = node_value v2"
  shows "dfs room target (node_with_value v1 d) cnt = dfs room target (node_with_value v2 d) cnt"
  using assms by (simp add: dfs.simps node_with_value_def py_get_def split: sum.splits)

lemma node_value_encodings:
  assumes "0 \<le> n"
  shows "node_value (JStr (py_hex n)) = Inr n"
    "n < 10 ^ max_str_digits \<Longrightarrow> node_value (JStr (py_str_int n)) = Inr n"
    "node_value (JInt n) = Inr n"
  using assms by (simp_all add: node_value_def str_value_hex str_value_dec int_or_zero_def)

lemma roots_loop_node_cong:
  assumes "node_value v1 = node_value v2"
  shows "roots_loop depth target (xs @ [node_with_value v1 d] @ ys) cnt =
         roots_loop depth target (xs @ [node_with_value v2 d] @ ys) cnt"
proof -
  have one: "roots_loop depth target [node_with_value v1 d] c =
             roots_loop depth target [node_with_value v2 d] c" for c
    using dfs_value_cong[OF assms, of _ target d]
    by (auto simp: node_with_value_def py_get_def py_or_def split: json.splits nat.splits)
  show ?thesis
    by (simp only: roots_loop_append one)
qed

lemma roots_loop_result_cong:
  assumes "node_value v1 = node_value v2"
  shows "roots_loop depth target (xs @ [JDict ((''result'', node_with_value v1 d) # w)] @ ys) cnt =
         roots_loop depth target (xs @ [JDict ((''result'', node_with_value v2 d) # w)] @ ys) cnt"
proof -
  have one: "roots_loop depth target [JDict ((''result'', node_with_value v1 d) # w)] c =
             roots_loop depth target [JDict ((''result'', node_with_value v2 d) # w)] c" for c
    using dfs_value_cong[OF assms, of _ target d]
    by (simp add: node_with_value_def py_get_def py_or_def split: nat.splits)
  show ?thesis
    by (simp only: roots_loop_append one)
qed

text \<open>
  C8, as the code has it. For every unsigned value \<open>n\<close>, the hexadecimal string \<open>hex(n)\<close>
  and the integer \<open>n\<close> are read as the same number \<open>n\<close>, and so is the decimal string of
  \<open>n\<close> when \<open>n < 10 ^ 4300\<close>, the longest decimal string that \<open>int\<close> converts. A flat entry
  or a call-tree node is then counted the same under these encodings, whatever else the
  entry or node holds, wherever it stands in the payload and whatever room the
  interpreter leaves for nested calls, in both scanners.
\<close>

theorem value_encodings_count_alike:
  assumes "0 \<le> n"
    and "v = JStr (py_hex n) \<or> v = JStr (py_str_int n) \<and> n < 10 ^ max_str_digits"
  shows "node_value v = Inr n \<and> node_value (JInt n) = Inr n
       \<and> trace_entry target (entry_with_value v a t) = trace_entry target (entry_with_value (JInt n) a t)
       \<and> dfs room target (node_with_value v d) cnt = dfs room target (node_with_value (JInt n) d) cnt
       \<and> count_internal_receives depth (Some ''trace_block'') (JList (xs @ [entry_with_value v a t] @ ys)) addr
         = count_internal_receives depth (Some ''trace_block'') (JList (xs @ [entry_with_value (JInt n) a t] @ ys)) addr
       \<and> count_internal_receives_hp depth (Some ''trace_block'') (JList (xs @ [entry_with_value v a t] @ ys)) addr
         = count_internal_receives_hp depth (Some ''trace_block'') (JList (xs @ [entry_with_value (JInt n) a t] @ ys)) addr
       \<and> count_internal_receives depth (Some ''debug_trace'') (JList (xs @ [node_with_value v d] @ ys)) addr
         = count_internal_receives depth (Some ''debug_trace'') (JList (xs @ [node_with_value (JInt n) d] @ ys)) addr
       \<and> count_internal_receives_hp depth (Some ''debug_trace'') (JList (xs @ [node_with_value v d] @ ys)) addr
         = count_internal_receives_hp depth (Some ''debug_trace'') (JList (xs @ [node_with_value (JInt n) d] @ ys)) addr
       \<and> count_internal_receives depth (Some ''debug_trace'')
            (JList (xs @ [JDict ((''result'', node_with_value v d) # w)] @ ys)) addr
         = count_internal_receives depth (Some ''debug_trace'')
            (JList (xs @ [JDict ((''result'', node_with_value (JInt n) d) # w)] @ ys)) addr
       \<and> count_internal_receives_hp depth (Some ''debug_trace'')
            (JList (xs @ [JDict ((''result'', node_with_value v d) # w)] @ ys)) addr
         = count_internal_receives_hp depth (Some ''debug_trace'')
            (JList (xs @ [JDict ((''result'', node_with_value (JInt n) d) # w)] @ ys)) addr"
proof -
  have nv: "node_value v = Inr n" "node_value (JInt n) = Inr n"
    using assms node_value_encodings[OF assms(1)] by auto
  then have eq: "node_value v = node_value (JInt n)" by simp
  have sv: "(case v of JStr s \<Rightarrow> (case str_value s of Inl e \<Rightarrow> Inl e | Inr i \<Rightarrow> Inr (JInt i)) | _ \<Rightarrow> Inr v) =
        (case JInt n of JStr s \<Rightarrow> (case str_value s of Inl e \<Rightarrow> Inl e | Inr i \<Rightarrow> Inr (JInt i)) | _ \<Rightarrow> Inr (JInt n))"
    using assms by (auto simp: str_value_hex str_value_dec)
  have te: "trace_entry target' (entry_with_value v a t) = trace_entry target' (entry_with_value (JInt n) a t)"
    for target'
    using sv by (rule trace_entry_value_cong)
  have tl: "trace_loop target' (xs @ [entry_with_value v a t] @ ys) 0 =
            trace_loop target' (xs @ [entry_with_value (JInt n) a t] @ ys) 0" for target'
    by (simp add: trace_loop_count te)
  show ?thesis
    using nv te[of target] tl[of "lower addr"] dfs_value_cong[OF eq, of room target d cnt]
      roots_loop_node_cong[OF eq, of depth "lower addr" xs d ys 0]
      roots_loop_result_cong[OF eq, of depth "lower addr" xs d w ys 0]
    by (simp add: count_internal_receives_def count_internal_receives_hp_def py_iter_def
        debug_trace_count_def Let_def)
qed

lemma enc5: "py_hex 5 = ''0x5''" "py_str_int 5 = ''5''"
  by (simp_all add: py_hex_def py_str_int_def hex_digits.simps dec_digits.simps digit_char_def)

lemma lower_abc: "lower ''0xABC'' = ''0xabc''" "lower ''0xabc'' = ''0xabc''"
  by code_simp+

lemma five_small: "(5::int) < 10 ^ max_str_digits"
proof -
  have "(10::int) ^ 1 \<le> 10 ^ max_str_digits"
    by (rule power_increasing) (simp_all add: max_str_digits_def)
  then show ?thesis by simp
qed

lemma flat_entry_counts:
  assumes "0 < n"
  shows "trace_entry ''0xabc'' (entry_with_value (JInt n) [(''to'', JStr ''0xABC'')] [(''type'', JStr ''call'')])
           = Inr True"
  using assms
  by (simp add: trace_entry_def entry_with_value_def py_get_def py_or_def py_str_def gt_zero_def
      lower_abc Let_def)

lemma tree_node_counts:
  assumes "0 < n"
  shows "dfs room ''0xabc'' (node_with_value (JInt n) [(''to'', JStr ''0xABC'')]) cnt = cnt + 1"
  using assms
  by (simp add: dfs.simps node_with_value_def py_get_def py_or_def py_str_def node_value_def
      int_or_zero_def lower_abc Let_def split: nat.splits)

lemma flat_int_counts:
  assumes "0 < n"
  shows "count_internal_receives depth (Some ''trace_block'')
      (JList ([] @ [entry_with_value (JInt n) [(''to'', JStr ''0xABC'')] [(''type'', JStr ''call'')]] @ [])) ''0xabc'' = Inr 1"
    and "count_internal_receives_hp depth (Some ''trace_block'')
      (JList ([] @ [entry_with_value (JInt n) [(''to'', JStr ''0xABC'')] [(''type'', JStr ''call'')]] @ [])) ''0xabc'' = Inr 1"
  using flat_entry_counts[OF assms]
  by (simp_all add: count_internal_receives_def count_internal_receives_hp_def py_iter_def lower_abc)

lemma tree_int_counts:
  assumes "0 < n" and "0 < depth"
  shows "count_internal_receives depth (Some ''debug_trace'')
      (JList ([] @ [node_with_value (JInt n) [(''to'', JStr ''0xABC'')]] @ [])) ''0xabc'' = Inr 1"
    and "count_internal_receives_hp depth (Some ''debug_trace'')
      (JList ([] @ [node_with_value (JInt n) [(''to'', JStr ''0xABC'')]] @ [])) ''0xabc'' = Inr 1"
proof -
  obtain room where d: "depth = Suc room" using assms(2) by (cases depth) auto
  show "count_internal_receives depth (Some ''debug_trace'')
      (JList ([] @ [node_with_value (JInt n) [(''to'', JStr ''0xABC'')]] @ [])) ''0xabc'' = Inr 1"
    using tree_node_counts[OF assms(1), of room 0]
    by (simp add: d count_internal_receives_def debug_trace_count_def
        lower_abc node_with_value_def py_get_def py_or_def)
  show "count_internal_receives_hp depth (Some ''debug_trace'')
      (JList ([] @ [node_with_value (JInt n) [(''to'', JStr ''0xABC'')]] @ [])) ''0xabc'' = Inr 1"
    using tree_node_counts[OF assms(1), of room 0]
    by (simp add: d count_internal_receives_hp_def debug_trace_count_def
        lower_abc node_with_value_def py_get_def py_or_def)
qed

lemma flat_unread_skipped:
  assumes "str_value s = Inl e"
  shows "count_internal_receives depth (Some ''trace_block'')
      (JList [entry_with_value (JStr s) [(''to'', JStr ''0xABC'')] [(''type'', JStr ''call'')]]) ''0xabc'' = Inr 0"
  using assms
  by (simp add: count_internal_receives_def py_iter_def trace_entry_def entry_with_value_def
      py_get_def py_or_def py_str_def lower_abc Let_def)

lemma tree_unread_skipped:
  assumes "str_value s = Inl e" and "0 < depth"
  shows "count_internal_receives depth (Some ''debug_trace'')
      (JList [node_with_value (JStr s) [(''to'', JStr ''0xABC'')]]) ''0xabc'' = Inr 0"
proof -
  obtain room where d: "depth = Suc room" using assms(2) by (cases depth) auto
  have "dfs room ''0xabc'' (node_with_value (JStr s) [(''to'', JStr ''0xABC'')]) 0 = 0"
    using assms(1)
    by (simp add: dfs.simps node_with_value_def py_get_def py_str_def node_value_def)
  then show ?thesis
    by (simp add: d count_internal_receives_def debug_trace_count_def
        lower_abc node_with_value_def py_get_def py_or_def)
qed

theorem value_encodings_count_alike_witness:
  "py_hex 5 = ''0x5'' \<and> py_str_int 5 = ''5''
   \<and> node_value (JStr ''0x5'') = Inr 5 \<and> node_value (JStr ''5'') = Inr 5 \<and> node_value (JInt 5) = Inr 5
   \<and> count_internal_receives 900 (Some ''trace_block'')
        (JList [entry_with_value (JStr ''0x5'') [(''to'', JStr ''0xABC'')] [(''type'', JStr ''call'')]]) ''0xabc'' = Inr 1
   \<and> count_internal_receives 900 (Some ''trace_block'')
        (JList [entry_with_value (JStr ''5'') [(''to'', JStr ''0xABC'')] [(''type'', JStr ''call'')]]) ''0xabc'' = Inr 1
   \<and> count_internal_receives 900 (Some ''trace_block'')
        (JList [entry_with_value (JInt 5) [(''to'', JStr ''0xABC'')] [(''type'', JStr ''call'')]]) ''0xabc'' = Inr 1
   \<and> count_internal_receives 900 (Some ''debug_trace'')
        (JList [node_with_value (JStr ''0x5'') [(''to'', JStr ''0xABC'')]]) ''0xabc'' = Inr 1
   \<and> count_internal_receives 900 (Some ''debug_trace'')
        (JList [node_with_value (JStr ''5'') [(''to'', JStr ''0xABC'')]]) ''0xabc'' = Inr 1
   \<and> count_internal_receives 900 (Some ''debug_trace'')
        (JList [node_with_value (JInt 5) [(''to'', JStr ''0xABC'')]]) ''0xabc'' = Inr 1
   \<and> count_internal_receives_hp 900 (Some ''trace_block'')
        (JList [entry_with_value (JStr ''0x5'') [(''to'', JStr ''0xABC'')] [(''type'', JStr ''call'')]]) ''0xabc'' = Inr 1
   \<and> count_internal_receives_hp 900 (Some ''trace_block'')
        (JList [entry_with_value (JStr ''5'') [(''to'', JStr ''0xABC'')] [(''type'', JStr ''call'')]]) ''0xabc'' = Inr 1
   \<and> count_internal_receives_hp 900 (Some ''trace_block'')
        (JList [entry_with_value (JInt 5) [(''to'', JStr ''0xABC'')] [(''type'', JStr ''call'')]]) ''0xabc'' = Inr 1
   \<and> count_internal_receives_hp 900 (Some ''debug_trace'')
        (JList [node_with_value (JStr ''0x5'') [(''to'', JStr ''0xABC'')]]) ''0xabc'' = Inr 1
   \<and> count_internal_receives_hp 900 (Some ''debug_trace'')
        (JList [node_with_value (JStr ''5'') [(''to'', JStr ''0xABC'')]]) ''0xabc'' = Inr 1
   \<and> count_internal_receives_hp 900 (Some ''debug_trace'')
        (JList [node_with_value (JInt 5) [(''to'', JStr ''0xABC'')]]) ''0xabc'' = Inr 1"
proof -
  have h: "(0::int) \<le> 5" "(0::int) < 5" "(0::nat) < 900" by simp_all
  note hex = value_encodings_count_alike[of 5 "JStr (py_hex 5)" "''0xabc''" "[(''to'', JStr ''0xABC'')]"
          "[(''type'', JStr ''call'')]" 0 "[(''to'', JStr ''0xABC'')]" 0 900 "[]" "[]" "''0xabc''" "[]",
          OF h(1) disjI1, OF refl]
  note dec = value_encodings_count_alike[of 5 "JStr (py_str_int 5)" "''0xabc''" "[(''to'', JStr ''0xABC'')]"
          "[(''type'', JStr ''call'')]" 0 "[(''to'', JStr ''0xABC'')]" 0 900  "[]" "[]" "''0xabc''" "[]",
          OF h(1) disjI2, OF conjI, OF refl five_small]
  note int = flat_int_counts[OF h(2), of 900] tree_int_counts[OF h(2) h(3)]
  show ?thesis
    using hex dec int unfolding enc5 append_Nil append_Nil2
    by (simp only: simp_thms)
qed

text \<open>
  The value \<open>10 ^ 4300\<close> at a node that matches the target: as a hexadecimal string and as
  an integer it is counted, as a decimal string of 4301 digits it is not, because \<open>int\<close>
  raises \<open>ValueError\<close> and the handler skips the entry or returns from the node.
\<close>

theorem long_decimal_value_counterexample:
  "node_value (JStr (py_str_int (10 ^ max_str_digits))) = Inl ValueError
   \<and> node_value (JStr (py_hex (10 ^ max_str_digits))) = Inr (10 ^ max_str_digits)
   \<and> node_value (JInt (10 ^ max_str_digits)) = Inr (10 ^ max_str_digits)
   \<and> count_internal_receives 900 (Some ''trace_block'')
        (JList [entry_with_value (JStr (py_str_int (10 ^ max_str_digits)))
                  [(''to'', JStr ''0xABC'')] [(''type'', JStr ''call'')]]) ''0xabc'' = Inr 0
   \<and> count_internal_receives 900 (Some ''trace_block'')
        (JList [entry_with_value (JStr (py_hex (10 ^ max_str_digits)))
                  [(''to'', JStr ''0xABC'')] [(''type'', JStr ''call'')]]) ''0xabc'' = Inr 1
   \<and> count_internal_receives 900 (Some ''trace_block'')
        (JList [entry_with_value (JInt (10 ^ max_str_digits))
                  [(''to'', JStr ''0xABC'')] [(''type'', JStr ''call'')]]) ''0xabc'' = Inr 1
   \<and> count_internal_receives 900 (Some ''debug_trace'')
        (JList [node_with_value (JStr (py_str_int (10 ^ max_str_digits)))
                  [(''to'', JStr ''0xABC'')]]) ''0xabc'' = Inr 0
   \<and> count_internal_receives 900 (Some ''debug_trace'')
        (JList [node_with_value (JInt (10 ^ max_str_digits))
                  [(''to'', JStr ''0xABC'')]]) ''0xabc'' = Inr 1"
proof -
  let ?n = "(10::int) ^ max_str_digits"
  have pos: "0 < ?n" by simp
  have d: "(0::nat) < 900" by simp
  have long: "str_value (py_str_int ?n) = Inl ValueError" by (rule str_value_dec_long) simp
  have hex: "str_value (py_hex ?n) = Inr ?n" by (rule str_value_hex) simp
  have nv: "node_value (JStr (py_str_int ?n)) = Inl ValueError"
    "node_value (JStr (py_hex ?n)) = Inr ?n" "node_value (JInt ?n) = Inr ?n"
    using long hex by (simp_all add: node_value_def int_or_zero_def del: power_eq_0_iff)
  have flat_hex: "count_internal_receives 900 (Some ''trace_block'')
        (JList [entry_with_value (JStr (py_hex ?n))
                  [(''to'', JStr ''0xABC'')] [(''type'', JStr ''call'')]]) ''0xabc'' = Inr 1"
    using hex pos
    by (simp add: count_internal_receives_def py_iter_def trace_entry_def entry_with_value_def
        py_get_def py_or_def py_str_def lower_abc gt_zero_def Let_def)
  show ?thesis
    using nv flat_unread_skipped[OF long, of 900] flat_hex flat_int_counts(1)[OF pos, of 900]
      tree_unread_skipped[OF long d] tree_int_counts(1)[OF pos d]
    unfolding append_Nil append_Nil2
    by (simp only: simp_thms)
qed

text \<open>
  C10. In the call-tree branch the loop over the per-transaction results calls \<open>get\<close>
  on each of them outside any \<open>try\<close>: a payload that is a list (or a dict) with an entry
  that is not a dict makes \<open>count_internal_receives\<close> raise \<open>AttributeError\<close>, in both
  scanners, where the flat branch skips such an entry and returns a count.
\<close>

theorem count_internal_receives_raises_on_null_entry:
  "count_internal_receives depth (Some ''debug_trace'') (JList [JNull]) ''0xabc'' = Inl AttributeError
   \<and> count_internal_receives_hp depth (Some ''debug_trace'') (JList [JNull]) ''0xabc'' = Inl AttributeError
   \<and> count_internal_receives depth (Some ''debug_trace'') (JDict [(''0x01'', JStr ''reverted'')]) ''0xabc''
       = Inl AttributeError
   \<and> count_internal_receives depth (Some ''trace_block'') (JList [JNull]) ''0xabc'' = Inr 0"
  by (simp add: count_internal_receives_def count_internal_receives_hp_def debug_trace_count_def
      dict_values_def py_iter_def trace_entry_def)

lemma fold_mono:
  assumes "\<And>c k. c \<in> set cs \<Longrightarrow> (k::int) \<le> f c k"
  shows "k \<le> fold f cs k"
  using assms
proof (induction cs arbitrary: k)
  case Nil
  then show ?case by simp
next
  case (Cons c cs)
  have "k \<le> f c k" using Cons.prems by simp
  also have "\<dots> \<le> fold f cs (f c k)" using Cons by simp
  finally show ?case by simp
qed

lemma dfs_mono: "cnt \<le> dfs room target node cnt"
proof (induction room target node cnt rule: dfs.induct)
  case (1 room target node cnt)
  show ?case
  proof (cases node)
    case (JDict d)
    show ?thesis
    proof (cases "py_str (py_get d ''to'' (JStr []))")
      case (Inl e)
      then show ?thesis using JDict by (simp add: dfs.simps)
    next
      case to: (Inr to_str)
      show ?thesis
      proof (cases "node_value (py_get d ''value'' (JStr ''0x0''))")
        case (Inl e)
        then show ?thesis using JDict to by (simp add: dfs.simps)
      next
        case (Inr val)
        let ?cnt1 = "if lower to_str = target \<and> 0 < val then cnt + 1 else cnt"
        have c1: "cnt \<le> ?cnt1" by simp
        show ?thesis
        proof (cases "py_or (py_get d ''calls'' (JList [])) (JList [])")
          case (JList cs)
          show ?thesis
          proof (cases room)
            case 0
            then show ?thesis using JDict to Inr JList c1 by (subst dfs.simps) (simp add: Let_def)
          next
            case (Suc room')
            have "?cnt1 \<le> fold (dfs room' target) cs ?cnt1"
              by (rule fold_mono) (rule 1[OF JDict to Inr refl JList Suc])
            then have "cnt \<le> fold (dfs room' target) cs ?cnt1" using c1 by linarith
            then show ?thesis using JDict to Inr JList Suc by (subst dfs.simps) (simp add: Let_def)
          qed
        qed (use JDict to Inr c1 in \<open>simp_all add: dfs.simps Let_def\<close>)
      qed
    qed
  qed (simp_all add: dfs.simps)
qed

lemma roots_loop_total:
  assumes "\<forall>x\<in>set items. \<exists>d. x = JDict d"
  shows "\<exists>n\<ge>cnt. roots_loop (Suc room) target items cnt = Inr n"
  using assms
proof (induction items arbitrary: cnt)
  case Nil
  then show ?case by simp
next
  case (Cons x items)
  then obtain d where x: "x = JDict d" by auto
  have rest: "\<forall>x\<in>set items. \<exists>d. x = JDict d" using Cons.prems by simp
  show ?case
  proof (cases "py_or (py_get d ''result'' JNull) x")
    case (JDict root)
    from Cons.IH[OF rest, of "dfs room target (JDict root) cnt"] obtain n where
      "dfs room target (JDict root) cnt \<le> n"
      "roots_loop (Suc room) target items (dfs room target (JDict root) cnt) = Inr n"
      by blast
    then show ?thesis using x JDict dfs_mono[of cnt room target "JDict root"] by auto
  qed (use Cons.IH[OF rest, of cnt] x in auto)
qed

text \<open>
  What holds of the totality of \<open>count_internal_receives\<close>: it returns a count that is
  not negative on a flat list, on a call-tree payload whose entries are all dicts (the
  interpreter leaving room for one call of \<open>dfs\<close> at least), and under any other tag.
\<close>

lemma count_internal_receives_total:
  shows "\<exists>n\<ge>0. count_internal_receives depth (Some ''trace_block'') (JList ts) addr = Inr n"
    and "\<exists>n\<ge>0. count_internal_receives_hp depth (Some ''trace_block'') payload addr = Inr n"
    and "\<forall>x\<in>set items. \<exists>d. x = JDict d \<Longrightarrow>
          \<exists>n\<ge>0. count_internal_receives (Suc room) (Some ''debug_trace'') (JList items) addr = Inr n
                \<and> count_internal_receives_hp (Suc room) (Some ''debug_trace'') (JList items) addr = Inr n"
    and "\<forall>x\<in>set (dict_values dd). \<exists>d. x = JDict d \<Longrightarrow>
          \<exists>n\<ge>0. count_internal_receives (Suc room) (Some ''debug_trace'') (JDict dd) addr = Inr n
                \<and> count_internal_receives_hp (Suc room) (Some ''debug_trace'') (JDict dd) addr = Inr n"
    and "tm \<noteq> Some ''trace_block'' \<Longrightarrow> tm \<noteq> Some ''debug_trace'' \<Longrightarrow>
          count_internal_receives depth tm payload addr = Inr 0
          \<and> count_internal_receives_hp depth tm payload addr = Inr 0"
proof -
  show "\<exists>n\<ge>0. count_internal_receives depth (Some ''trace_block'') (JList ts) addr = Inr n"
    by (simp add: count_internal_receives_def py_iter_def trace_loop_count)
  show "\<exists>n\<ge>0. count_internal_receives_hp depth (Some ''trace_block'') payload addr = Inr n"
    by (cases payload) (simp_all add: count_internal_receives_hp_def trace_loop_count)
  show "\<exists>n\<ge>0. count_internal_receives (Suc room) (Some ''debug_trace'') (JList items) addr = Inr n
                \<and> count_internal_receives_hp (Suc room) (Some ''debug_trace'') (JList items) addr = Inr n"
    if "\<forall>x\<in>set items. \<exists>d. x = JDict d"
    using roots_loop_total[OF that, of 0 room "lower addr"]
    by (simp add: count_internal_receives_def count_internal_receives_hp_def debug_trace_count_def)
  show "\<exists>n\<ge>0. count_internal_receives (Suc room) (Some ''debug_trace'') (JDict dd) addr = Inr n
                \<and> count_internal_receives_hp (Suc room) (Some ''debug_trace'') (JDict dd) addr = Inr n"
    if "\<forall>x\<in>set (dict_values dd). \<exists>d. x = JDict d"
    using roots_loop_total[OF that, of 0 room "lower addr"]
    by (simp add: count_internal_receives_def count_internal_receives_hp_def debug_trace_count_def)
  show "count_internal_receives depth tm payload addr = Inr 0
          \<and> count_internal_receives_hp depth tm payload addr = Inr 0"
    if "tm \<noteq> Some ''trace_block''" "tm \<noteq> Some ''debug_trace''"
    using that by (simp add: count_internal_receives_def count_internal_receives_hp_def)
qed

section \<open>Totals of the emitted rows\<close>

lemma build_row_totals:
  "total_txs (build_row st balances a) =
     external_txs (build_row st balances a) + internal_txs (build_row st balances a)
   \<and> external_txs (build_row st balances a) =
     sent_txs (build_row st balances a) + received_txs (build_row st balances a)"
  by (simp add: build_row_def Let_def)

lemma scan_range_rows:
  assumes "scan_range w s e cs wb bl te = Inr rows"
  shows "\<exists>st balances. rows = map (build_row st balances) (addr_list st bl)
           \<and> scan_blocks w cs te [s..e] init_state = Inr st"
  using assms by (auto simp: scan_range_def Let_def split: sum.splits)

text \<open>
  The loop over the external transactions adds one to \<open>sent_txs\<close> or to
  \<open>sent_to_contract_txs\<close> for each transaction counted as sent, one to \<open>received_txs\<close> for
  each counted as received, and leaves \<open>received_from_contract_txs\<close> alone.
\<close>

lemma classify_external_counts:
  assumes "classify_external es addr ts cs cache = Inr (cs', cache')"
  shows "sent_external cs' + sent_to_contract cs' =
           sent_external cs + sent_to_contract cs + int (length (filter (counted_sent addr) ts))
       \<and> received_external cs' =
           received_external cs + int (length (filter (counted_received addr) ts))
       \<and> received_from_contract cs' = received_from_contract cs"
  using assms
proof (induction ts arbitrary: cs cache)
  case Nil
  then show ?case by simp
next
  case (Cons t ts)
  show ?case
  proof (cases "is_error t = Some ''1''")
    case True
    then show ?thesis using Cons.IH[of cs cache] Cons.prems
      by (auto simp: counted_sent_def counted_received_def)
  next
    case False
    let ?frm = "lower (case api_from t of None \<Rightarrow> [] | Some a \<Rightarrow> a)"
    let ?to = "lower (case api_to t of None \<Rightarrow> [] | Some a \<Rightarrow> a)"
    let ?oc = "is_contract_api es ?to cache"
    consider (sendc) "?frm = addr" "?to \<noteq> []" "api_answer ?oc = Inr True"
      | (sende) "?frm = addr" "?to \<noteq> []" "api_answer ?oc = Inr False"
      | (raise) e where "?frm = addr" "?to \<noteq> []" "api_answer ?oc = Inl e"
      | (creation) "?frm = addr" "?to = []"
      | (recv) "?frm \<noteq> addr" "?to = addr"
      | (other) "?frm \<noteq> addr" "?to \<noteq> addr"
      by (cases "api_answer ?oc") auto
    then show ?thesis
    proof cases
      case sendc
      then have "classify_external es addr ts (cs\<lparr>sent_to_contract := sent_to_contract cs + 1\<rparr>)
          (api_cache_after ?oc) = Inr (cs', cache')"
        using Cons.prems False by (simp add: Let_def)
      from Cons.IH[OF this] show ?thesis
        using sendc False by (simp add: counted_sent_def counted_received_def lowered_def)
    next
      case sende
      then have "classify_external es addr ts (cs\<lparr>sent_external := sent_external cs + 1\<rparr>)
          (api_cache_after ?oc) = Inr (cs', cache')"
        using Cons.prems False by (simp add: Let_def)
      from Cons.IH[OF this] show ?thesis
        using sende False by (simp add: counted_sent_def counted_received_def lowered_def)
    next
      case raise
      then show ?thesis using Cons.prems False by (simp add: Let_def)
    next
      case creation
      then have "classify_external es addr ts cs cache = Inr (cs', cache')"
        using Cons.prems False by (simp add: Let_def)
      from Cons.IH[OF this] show ?thesis
        using creation False by (simp add: counted_sent_def counted_received_def lowered_def)
    next
      case recv
      then have "classify_external es addr ts (cs\<lparr>received_external := received_external cs + 1\<rparr>)
          cache = Inr (cs', cache')"
        using Cons.prems False by (simp add: Let_def)
      from Cons.IH[OF this] show ?thesis
        using recv False by (simp add: counted_sent_def counted_received_def lowered_def)
    next
      case other
      then have "classify_external es addr ts cs cache = Inr (cs', cache')"
        using Cons.prems False by (simp add: Let_def)
      from Cons.IH[OF this] show ?thesis
        using other False by (simp add: counted_sent_def counted_received_def lowered_def)
    qed
  qed
qed

lemma counted_disjoint:
  "length (filter (counted_sent addr) ts) + length (filter (counted_received addr) ts) \<le> length ts"
proof -
  have "length (filter (counted_sent addr) ts) \<le> length (filter (\<lambda>t. \<not> counted_received addr t) ts)"
    by (induction ts) (auto simp: counted_sent_def counted_received_def)
  then show ?thesis
    using sum_length_filter_compl[of "counted_received addr" ts] by linarith
qed

lemma classify_internal_counts:
  "received_from_contract (classify_internal addr ts cs) =
     received_from_contract cs + int (length (filter (counted_internal addr) ts))
   \<and> sent_external (classify_internal addr ts cs) = sent_external cs
   \<and> received_external (classify_internal addr ts cs) = received_external cs
   \<and> sent_to_contract (classify_internal addr ts cs) = sent_to_contract cs"
  by (induction ts arbitrary: cs) (simp_all add: counted_internal_def lowered_def)

lemma classify_row:
  assumes "classify_for_address es addr0 cache = Inr (row, cache')"
  shows "\<exists>ext internal.
           external_txs_of es addr0 = Inr ext \<and> internal_txs_of es addr0 = Inr internal
         \<and> external_txs row = int (length ext) \<and> internal_txs row = int (length internal)
         \<and> total_txs row = external_txs row + internal_txs row
         \<and> sent_txs row + sent_to_contract_txs row
             = int (length (filter (counted_sent (lower addr0)) ext))
         \<and> received_txs row = int (length (filter (counted_received (lower addr0)) ext))
         \<and> received_from_contract_txs row
             = int (length (filter (counted_internal (lower addr0)) internal))
         \<and> sent_txs row + sent_to_contract_txs row + received_txs row \<le> external_txs row"
proof -
  from assms obtain balance ext internal cs1 where
    e: "external_txs_of es addr0 = Inr ext" and i: "internal_txs_of es addr0 = Inr internal"
    and c: "classify_external es (lower addr0) ext
              \<lparr>sent_external = 0, received_external = 0, sent_to_contract = 0,
               received_from_contract = 0\<rparr> cache = Inr (cs1, cache')"
    and r: "row = \<lparr>address = addr0, eth_balance = Some (Round_8 (Div_1e18 balance)),
              total_txs = int (length ext) + int (length internal),
              sent_txs = sent_external (classify_internal (lower addr0) internal cs1),
              received_txs = received_external (classify_internal (lower addr0) internal cs1),
              sent_to_contract_txs = sent_to_contract (classify_internal (lower addr0) internal cs1),
              received_from_contract_txs = received_from_contract (classify_internal (lower addr0) internal cs1),
              external_txs = int (length ext), internal_txs = int (length internal)\<rparr>"
    by (auto simp: classify_for_address_def Let_def split: sum.splits prod.splits)
  note x = classify_external_counts[OF c]
  note y = classify_internal_counts[of "lower addr0" internal cs1]
  have "sent_txs row + sent_to_contract_txs row = int (length (filter (counted_sent (lower addr0)) ext))"
    "received_txs row = int (length (filter (counted_received (lower addr0)) ext))"
    "received_from_contract_txs row = int (length (filter (counted_internal (lower addr0)) internal))"
    "external_txs row = int (length ext)" "internal_txs row = int (length internal)"
    "total_txs row = external_txs row + internal_txs row"
    using x y by (simp_all add: r)
  moreover have "sent_txs row + sent_to_contract_txs row + received_txs row \<le> external_txs row"
    using calculation counted_disjoint[of "lower addr0" ext] by linarith
  ultimately show ?thesis using e i by blast
qed

text \<open>
  C1, as the code has it. Every row that \<open>scan_range\<close> emits satisfies both equations. A
  row of \<open>classify_for_address\<close> satisfies the first, its \<open>external_txs\<close> and \<open>internal_txs\<close>
  being the numbers of external and of internal transactions fetched for the address. Of
  the external transactions only the successful ones are counted: one sent by the address
  to some recipient in \<open>sent_txs\<close> or in \<open>sent_to_contract_txs\<close>, one received from another
  sender in \<open>received_txs\<close>; the three counters add up to \<open>external_txs\<close> at most. A
  successful internal transaction to the address is counted in
  \<open>received_from_contract_txs\<close>.
\<close>

theorem row_totals:
  shows "(scan_range w s e cs wb bl te = Inr rows \<longrightarrow>
            (\<forall>r\<in>set rows. total_txs r = external_txs r + internal_txs r
                          \<and> external_txs r = sent_txs r + received_txs r))
       \<and> (classify_for_address es addr0 cache = Inr (row, cache') \<longrightarrow>
            (\<exists>ext internal.
                external_txs_of es addr0 = Inr ext \<and> internal_txs_of es addr0 = Inr internal
              \<and> external_txs row = int (length ext) \<and> internal_txs row = int (length internal)
              \<and> total_txs row = external_txs row + internal_txs row
              \<and> sent_txs row + sent_to_contract_txs row
                  = int (length (filter (counted_sent (lower addr0)) ext))
              \<and> received_txs row = int (length (filter (counted_received (lower addr0)) ext))
              \<and> received_from_contract_txs row
                  = int (length (filter (counted_internal (lower addr0)) internal))
              \<and> 0 \<le> sent_txs row + sent_to_contract_txs row + received_txs row
              \<and> sent_txs row + sent_to_contract_txs row + received_txs row \<le> external_txs row))"
proof (intro conjI impI)
  assume "scan_range w s e cs wb bl te = Inr rows"
  from scan_range_rows[OF this] obtain st balances where
    "rows = map (build_row st balances) (addr_list st bl)" by blast
  then show "\<forall>r\<in>set rows. total_txs r = external_txs r + internal_txs r
                          \<and> external_txs r = sent_txs r + received_txs r"
    using build_row_totals by auto
next
  assume a: "classify_for_address es addr0 cache = Inr (row, cache')"
  from classify_row[OF a] obtain ext internal where
    f: "external_txs_of es addr0 = Inr ext" "internal_txs_of es addr0 = Inr internal"
      "external_txs row = int (length ext)" "internal_txs row = int (length internal)"
      "total_txs row = external_txs row + internal_txs row"
      "sent_txs row + sent_to_contract_txs row = int (length (filter (counted_sent (lower addr0)) ext))"
      "received_txs row = int (length (filter (counted_received (lower addr0)) ext))"
      "received_from_contract_txs row = int (length (filter (counted_internal (lower addr0)) internal))"
      "sent_txs row + sent_to_contract_txs row + received_txs row \<le> external_txs row"
    by blast
  have "0 \<le> sent_txs row + sent_to_contract_txs row + received_txs row"
    using f(6,7) by linarith
  with f show "\<exists>ext internal.
                external_txs_of es addr0 = Inr ext \<and> internal_txs_of es addr0 = Inr internal
              \<and> external_txs row = int (length ext) \<and> internal_txs row = int (length internal)
              \<and> total_txs row = external_txs row + internal_txs row
              \<and> sent_txs row + sent_to_contract_txs row
                  = int (length (filter (counted_sent (lower addr0)) ext))
              \<and> received_txs row = int (length (filter (counted_received (lower addr0)) ext))
              \<and> received_from_contract_txs row
                  = int (length (filter (counted_internal (lower addr0)) internal))
              \<and> 0 \<le> sent_txs row + sent_to_contract_txs row + received_txs row
              \<and> sent_txs row + sent_to_contract_txs row + received_txs row \<le> external_txs row"
    by blast
qed

lemma demo_scan: "scan_range demo_w3 100 100 False True 0 False = Inr [row_aa, row_bb]"
  by code_simp

lemma demo_classify:
  "classify_for_address demo_etherscan ''0xAA'' Map.empty = Inr (failed_tx_row, Map.empty)"
  by (simp add: classify_for_address_def demo_etherscan_def failed_tx_row_def Let_def)

lemma lower_samples:
  "lower ''0xAA'' = ''0xaa''" "lower ''0xaa'' = ''0xaa''" "lower ''0xbb'' = ''0xbb''"
  "lower ''0xcc'' = ''0xcc''" "lower ''0xdd'' = ''0xdd''" "lower ''0xee'' = ''0xee''"
  "lower [] = []"
  by code_simp+

lemma busy_classify:
  "classify_for_address busy_etherscan ''0xAA'' Map.empty =
     Inr (busy_row, [''0xbb'' \<mapsto> False, ''0xcc'' \<mapsto> True])"
  by (simp add: classify_for_address_def busy_etherscan_def busy_row_def Let_def lower_samples
      is_contract_api_def is_contract_body_def py_get_def)

lemma busy_counted:
  "filter (counted_sent ''0xaa'') (projr (external_txs_of busy_etherscan ''0xAA'')) =
     [\<lparr>is_error = Some ''0'', api_from = Some ''0xaa'', api_to = Some ''0xbb''\<rparr>,
      \<lparr>is_error = Some ''0'', api_from = Some ''0xaa'', api_to = Some ''0xcc''\<rparr>]"
  "filter (counted_received ''0xaa'') (projr (external_txs_of busy_etherscan ''0xAA'')) =
     [\<lparr>is_error = Some ''0'', api_from = Some ''0xdd'', api_to = Some ''0xAA''\<rparr>]"
  "filter (counted_internal ''0xaa'') (projr (internal_txs_of busy_etherscan ''0xAA'')) =
     [\<lparr>is_error = Some ''0'', api_from = Some ''0xcc'', api_to = Some ''0xaa''\<rparr>]"
  by (simp_all add: busy_etherscan_def counted_sent_def counted_received_def counted_internal_def
      lowered_def lower_samples)

theorem row_totals_witness:
  "scan_range demo_w3 100 100 False True 0 False = Inr [row_aa, row_bb]
   \<and> total_txs row_aa = external_txs row_aa + internal_txs row_aa
   \<and> external_txs row_aa = sent_txs row_aa + received_txs row_aa
   \<and> total_txs row_bb = external_txs row_bb + internal_txs row_bb
   \<and> external_txs row_bb = sent_txs row_bb + received_txs row_bb
   \<and> classify_for_address busy_etherscan ''0xAA'' Map.empty
       = Inr (busy_row, [''0xbb'' \<mapsto> False, ''0xcc'' \<mapsto> True])
   \<and> length (projr (external_txs_of busy_etherscan ''0xAA'')) = 5
   \<and> length (projr (internal_txs_of busy_etherscan ''0xAA'')) = 2
   \<and> external_txs busy_row = 5 \<and> internal_txs busy_row = 2 \<and> total_txs busy_row = 7
   \<and> sent_txs busy_row + sent_to_contract_txs busy_row = 2
   \<and> length (filter (counted_sent ''0xaa'') (projr (external_txs_of busy_etherscan ''0xAA''))) = 2
   \<and> received_txs busy_row = 1
   \<and> length (filter (counted_received ''0xaa'') (projr (external_txs_of busy_etherscan ''0xAA''))) = 1
   \<and> received_from_contract_txs busy_row = 1
   \<and> length (filter (counted_internal ''0xaa'') (projr (internal_txs_of busy_etherscan ''0xAA''))) = 1
   \<and> sent_txs busy_row + sent_to_contract_txs busy_row + received_txs busy_row < external_txs busy_row"
  using row_totals[of demo_w3 100 100 False True 0 False "[row_aa, row_bb]" busy_etherscan
      "''0xAA''" Map.empty busy_row "[''0xbb'' \<mapsto> False, ''0xcc'' \<mapsto> True]"]
    demo_scan busy_classify busy_counted
  by (simp add: lower_samples) (simp add: busy_etherscan_def busy_row_def row_aa_def row_bb_def)

text \<open>
  An account whose only transaction failed: \<open>classify_for_address\<close> reports one external
  transaction, none sent and none received.
\<close>

theorem classify_row_counterexample:
  "classify_for_address demo_etherscan ''0xAA'' Map.empty = Inr (failed_tx_row, Map.empty)
   \<and> external_txs failed_tx_row \<noteq> sent_txs failed_tx_row + received_txs failed_tx_row"
  by (simp add: classify_for_address_def demo_etherscan_def failed_tx_row_def Let_def)

section \<open>The contract cache\<close>

lemma is_contract_hit:
  assumes "addr \<noteq> []" "to_checksum_address w addr = Inr al" "cache (lower al) = Some b"
  shows "is_contract w addr cache = \<lparr>answer = Inr b, cache_after = cache, lookups = 0\<rparr>"
  using assms by (simp add: is_contract_def)

lemma is_contract_keeps:
  assumes "cache k = Some b"
  shows "cache_after (is_contract w addr cache) k = Some b"
  using assms by (auto simp: is_contract_def Let_def split: sum.splits option.splits)

lemma is_contract_again:
  assumes "answer (is_contract w addr cache) = Inr b"
  shows "is_contract w addr (cache_after (is_contract w addr cache)) =
           \<lparr>answer = Inr b, cache_after = cache_after (is_contract w addr cache), lookups = 0\<rparr>"
  using assms by (auto simp: is_contract_def Let_def split: sum.splits option.splits if_splits)

lemma is_contract_body_hit:
  assumes "cache (lower addr) = Some b"
  shows "is_contract_body es run addr cache = \<lparr>api_answer = Inr b, api_cache_after = cache, api_lookups = 0\<rparr>"
  using assms by (simp add: is_contract_body_def)

lemma is_contract_runs_hit:
  assumes "cache (lower addr) = Some b"
  shows "is_contract_runs es run left addr cache = \<lparr>api_answer = Inr b, api_cache_after = cache, api_lookups = 0\<rparr>"
  using assms by (cases left) (simp_all add: is_contract_body_hit Let_def)

lemma is_contract_body_keeps:
  assumes "cache k = Some b"
  shows "api_cache_after (is_contract_body es run addr cache) k = Some b"
  using assms by (auto simp: is_contract_body_def Let_def split: sum.splits option.splits json.splits)

lemma is_contract_runs_keeps:
  assumes "cache k = Some b"
  shows "api_cache_after (is_contract_runs es run left addr cache) k = Some b"
  using assms
  by (induction left arbitrary: run cache) (simp_all add: is_contract_body_keeps Let_def)

lemma is_contract_body_answer:
  assumes "api_answer (is_contract_body es run addr cache) = Inr b"
  shows "api_cache_after (is_contract_body es run addr cache) (lower addr) = Some b"
  using assms by (auto simp: is_contract_body_def Let_def split: sum.splits option.splits json.splits)

lemma is_contract_runs_answer:
  assumes "api_answer (is_contract_runs es run left addr cache) = Inr b"
  shows "api_cache_after (is_contract_runs es run left addr cache) (lower addr) = Some b"
  using assms
  by (induction left arbitrary: run cache)
     (auto simp: is_contract_body_answer Let_def split: if_splits)

lemma is_contract_runs_again:
  assumes "api_answer (is_contract_runs es run left addr cache) = Inr b"
  shows "is_contract_runs es run' left' addr (api_cache_after (is_contract_runs es run left addr cache)) =
           \<lparr>api_answer = Inr b,
            api_cache_after = api_cache_after (is_contract_runs es run left addr cache),
            api_lookups = 0\<rparr>"
  by (rule is_contract_runs_hit) (rule is_contract_runs_answer[OF assms])

lemma scan_tx_cache:
  assumes "contract_cache st k = Some b"
  shows "contract_cache (scan_tx w cs st t) k = Some b"
  using assms is_contract_keeps[of _ k b w]
  by (auto simp: scan_tx_def Let_def split: sum.splits bool.splits)

lemma fold_scan_tx_cache:
  assumes "contract_cache st k = Some b"
  shows "contract_cache (fold (\<lambda>t s. scan_tx w cs s t) txs st) k = Some b"
  using assms by (induction txs arbitrary: st) (simp_all add: scan_tx_cache)

lemma trace_addr_cache: "contract_cache (trace_addr depth m p st a) = contract_cache st"
  by (simp add: trace_addr_def split: sum.splits)

lemma fold_trace_addr_cache:
  "contract_cache (fold (\<lambda>addr s. trace_addr depth m p s addr) as st) = contract_cache st"
  by (induction as arbitrary: st) (simp_all add: trace_addr_cache)

lemma scan_block_cache:
  assumes "contract_cache st k = Some b"
  shows "contract_cache (scan_block w cs te bn txs st) k = Some b"
  using fold_scan_tx_cache[OF assms, of w cs txs]
  by (simp add: scan_block_def trace_step_def Let_def fold_trace_addr_cache split: prod.splits)

lemma scan_blocks_cache:
  assumes "scan_blocks w cs te bns st = Inr st'" "contract_cache st k = Some b"
  shows "contract_cache st' k = Some b"
  using assms
  by (induction bns arbitrary: st) (auto simp: scan_block_cache split: sum.splits)

text \<open>
  C9. A request for an address whose key is in the cache returns the cached boolean with
  no code lookup and leaves the cache as it is; so does a second request after a first
  one that returned. No call of \<open>is_contract\<close>, and no scan, changes an entry that the
  cache already holds. This is so in the public-RPC scanner and in the Etherscan script,
  whatever the number of runs its retry wrapper makes.
\<close>

theorem contract_cache_hit:
  shows "(addr \<noteq> [] \<and> to_checksum_address w addr = Inr al \<and> cache (lower al) = Some b \<longrightarrow>
            is_contract w addr cache = \<lparr>answer = Inr b, cache_after = cache, lookups = 0\<rparr>)
       \<and> (answer (is_contract w addr cache) = Inr b \<longrightarrow>
            is_contract w addr (cache_after (is_contract w addr cache)) =
              \<lparr>answer = Inr b, cache_after = cache_after (is_contract w addr cache), lookups = 0\<rparr>)
       \<and> (cache k = Some b \<longrightarrow> cache_after (is_contract w addr cache) k = Some b)
       \<and> (scan_blocks w cs te bns st = Inr st' \<and> contract_cache st k = Some b \<longrightarrow>
            contract_cache st' k = Some b)
       \<and> (cache (lower addr) = Some b \<longrightarrow>
            is_contract_api es addr cache =
              \<lparr>api_answer = Inr b, api_cache_after = cache, api_lookups = 0\<rparr>)
       \<and> (api_answer (is_contract_api es addr cache) = Inr b \<longrightarrow>
            is_contract_api es addr (api_cache_after (is_contract_api es addr cache)) =
              \<lparr>api_answer = Inr b, api_cache_after = api_cache_after (is_contract_api es addr cache),
               api_lookups = 0\<rparr>)
       \<and> (cache k = Some b \<longrightarrow> api_cache_after (is_contract_api es addr cache) k = Some b)"
  using is_contract_hit[of addr w al cache b] is_contract_again[of w addr cache b]
    is_contract_keeps[of cache k b w addr] scan_blocks_cache[of w cs te bns st st' k b]
    is_contract_runs_hit[of cache addr b es 0 "retries_allowed es"]
    is_contract_runs_again[of es 0 "retries_allowed es" addr cache b 0 "retries_allowed es"]
    is_contract_runs_keeps[of cache k b es 0 "retries_allowed es" addr]
  unfolding is_contract_api_def by blast

lemma first_lookup:
  "is_contract code_at_bb ''0xbb'' Map.empty =
     \<lparr>answer = Inr True, cache_after = [''0xbb'' \<mapsto> True], lookups = 1\<rparr>"
  by (simp add: is_contract_def code_at_bb_def demo_w3_def lower_def lower_char_def)

lemma lower_bb: "lower ''0xbb'' = ''0xbb''"
  by code_simp

theorem contract_cache_hit_witness:
  "is_contract code_at_bb ''0xbb'' Map.empty =
     \<lparr>answer = Inr True, cache_after = [''0xbb'' \<mapsto> True], lookups = 1\<rparr>
   \<and> is_contract code_at_bb ''0xbb'' [''0xbb'' \<mapsto> True] =
     \<lparr>answer = Inr True, cache_after = [''0xbb'' \<mapsto> True], lookups = 0\<rparr>
   \<and> is_contract_api demo_etherscan ''0xbb'' [''0xbb'' \<mapsto> False] =
     \<lparr>api_answer = Inr False, api_cache_after = [''0xbb'' \<mapsto> False], api_lookups = 0\<rparr>"
  using contract_cache_hit[of "''0xbb''" code_at_bb "''0xbb''" "[''0xbb'' \<mapsto> True]" True _ _ _ _ _ _ demo_etherscan]
    contract_cache_hit[of "''0xbb''" code_at_bb "''0xbb''" "[''0xbb'' \<mapsto> False]" False _ _ _ _ _ _ demo_etherscan]
    first_lookup
  by (simp add: lower_bb code_at_bb_def demo_w3_def)

section \<open>Tracing is best effort\<close>

lemma try_trace_block_flat:
  assumes "make_request w ''trace_block'' [JStr (py_hex bn)] = Inr (JDict res)"
    and "py_get res ''result'' JNull = JList r"
  shows "try_trace_block w bn = (Some ''trace_block'', JList r)"
  using assms by (simp add: try_trace_block_def)

lemma try_trace_block_tree:
  assumes "\<forall>res r. \<not> (make_request w ''trace_block'' [JStr (py_hex bn)] = Inr (JDict res)
                      \<and> py_get res ''result'' JNull = JList r)"
    and "make_request w ''debug_traceBlockByNumber''
           [JStr (py_hex bn), JDict [(''tracer'', JStr ''callTracer''), (''timeout'', JStr ''20s'')]]
         = Inr (JDict res2)"
    and "has_key res2 ''result''"
  shows "try_trace_block w bn = (Some ''debug_trace'', py_get res2 ''result'' JNull)"
  using assms by (auto simp: try_trace_block_def split: sum.splits json.splits)

lemma try_trace_block_none:
  assumes "\<forall>res r. \<not> (make_request w ''trace_block'' [JStr (py_hex bn)] = Inr (JDict res)
                      \<and> py_get res ''result'' JNull = JList r)"
    and "\<forall>res2. \<not> (make_request w ''debug_traceBlockByNumber''
           [JStr (py_hex bn), JDict [(''tracer'', JStr ''callTracer''), (''timeout'', JStr ''20s'')]]
         = Inr (JDict res2) \<and> has_key res2 ''result'')"
  shows "try_trace_block w bn = (None, JNull)"
  using assms by (auto simp: try_trace_block_def split: sum.splits json.splits)

lemma scan_block_unsupported:
  assumes "try_trace_block w bn = (None, JNull)"
  shows "scan_block w cs True bn txs st = scan_block w cs False bn txs st"
  using assms by (simp add: scan_block_def trace_step_def)

lemma scan_blocks_unsupported:
  assumes "\<forall>bn\<in>set bns. try_trace_block w bn = (None, JNull)"
  shows "scan_blocks w cs True bns st = scan_blocks w cs False bns st"
  using assms
  by (induction bns arbitrary: st) (simp_all add: scan_block_unsupported split: sum.splits)

lemma scan_range_unsupported:
  assumes "\<forall>bn\<in>{s..e}. try_trace_block w bn = (None, JNull)"
  shows "scan_range w s e cs wb bl True = scan_range w s e cs wb bl False"
  using scan_blocks_unsupported[of "[s..e]" w cs init_state] assms
  by (simp add: scan_range_def)

lemma try_trace_one_block_cases:
  shows "call tr c ''trace_block'' [JStr (py_hex bn)] = (Inr r, c1) \<Longrightarrow>
           try_trace_one_block tr c bn = ((Some ''trace_block'', r), c1)"
    and "call tr c ''trace_block'' [JStr (py_hex bn)] = (Inl e1, c1) \<Longrightarrow>
         call tr c1 ''debug_traceBlockByNumber''
               [JStr (py_hex bn), JDict [(''tracer'', JStr ''callTracer''), (''timeout'', JStr ''20s'')]]
           = (Inr r, c2) \<Longrightarrow>
           try_trace_one_block tr c bn = ((Some ''debug_trace'', r), c2)"
    and "call tr c ''trace_block'' [JStr (py_hex bn)] = (Inl e1, c1) \<Longrightarrow>
         call tr c1 ''debug_traceBlockByNumber''
               [JStr (py_hex bn), JDict [(''tracer'', JStr ''callTracer''), (''timeout'', JStr ''20s'')]]
           = (Inl e2, c2) \<Longrightarrow>
           try_trace_one_block tr c bn = ((None, JNull), c2)"
  by (simp_all add: try_trace_one_block_def trace_block_def debug_trace_block_def Let_def)

text \<open>
  C6. \<open>try_trace_block\<close> returns the flat list of \<open>trace_block\<close> when that request
  answers with one, whatever \<open>debug_traceBlockByNumber\<close> would answer; when it does not
  (it raises, or answers something else), the result of \<open>debug_traceBlockByNumber\<close> when
  that request answers with one; and the pair \<open>(None, None)\<close> when neither does. A block
  whose trace attempt returns \<open>(None, None)\<close> is scanned as if tracing were off, and a
  range of such blocks gives the rows of the scan without tracing.
  \<open>try_trace_one_block\<close> of the high-performance scanner follows the same order, a
  failure being an exception of the call: when the call of \<open>trace_block\<close> returns, no
  other call is made; when it raises, \<open>debug_traceBlockByNumber\<close> is called on the client
  as the first call left it; when that raises too, the result is \<open>(None, None)\<close>.
\<close>

theorem trace_fallback:
  shows "(make_request w ''trace_block'' [JStr (py_hex bn)] = Inr (JDict res)
            \<and> py_get res ''result'' JNull = JList r \<longrightarrow>
            try_trace_block w bn = (Some ''trace_block'', JList r))
       \<and> ((\<forall>res r. \<not> (make_request w ''trace_block'' [JStr (py_hex bn)] = Inr (JDict res)
                        \<and> py_get res ''result'' JNull = JList r))
            \<and> make_request w ''debug_traceBlockByNumber''
                 [JStr (py_hex bn), JDict [(''tracer'', JStr ''callTracer''), (''timeout'', JStr ''20s'')]]
               = Inr (JDict res2)
            \<and> has_key res2 ''result'' \<longrightarrow>
            try_trace_block w bn = (Some ''debug_trace'', py_get res2 ''result'' JNull))
       \<and> ((\<forall>res r. \<not> (make_request w ''trace_block'' [JStr (py_hex bn)] = Inr (JDict res)
                        \<and> py_get res ''result'' JNull = JList r))
            \<and> (\<forall>res2. \<not> (make_request w ''debug_traceBlockByNumber''
                 [JStr (py_hex bn), JDict [(''tracer'', JStr ''callTracer''), (''timeout'', JStr ''20s'')]]
               = Inr (JDict res2) \<and> has_key res2 ''result'')) \<longrightarrow>
            try_trace_block w bn = (None, JNull))
       \<and> (try_trace_block w bn = (None, JNull) \<longrightarrow>
            scan_block w cs True bn txs st = scan_block w cs False bn txs st)
       \<and> ((\<forall>b\<in>{s..e}. try_trace_block w b = (None, JNull)) \<longrightarrow>
            scan_range w s e cs wb bl True = scan_range w s e cs wb bl False)
       \<and> (call tr c ''trace_block'' [JStr (py_hex bn)] = (Inr r', c1) \<longrightarrow>
            try_trace_one_block tr c bn = ((Some ''trace_block'', r'), c1))
       \<and> (call tr c ''trace_block'' [JStr (py_hex bn)] = (Inl e1, c1) \<and>
          call tr c1 ''debug_traceBlockByNumber''
               [JStr (py_hex bn), JDict [(''tracer'', JStr ''callTracer''), (''timeout'', JStr ''20s'')]]
            = (Inr r', c2) \<longrightarrow>
            try_trace_one_block tr c bn = ((Some ''debug_trace'', r'), c2))
       \<and> (call tr c ''trace_block'' [JStr (py_hex bn)] = (Inl e1, c1) \<and>
          call tr c1 ''debug_traceBlockByNumber''
               [JStr (py_hex bn), JDict [(''tracer'', JStr ''callTracer''), (''timeout'', JStr ''20s'')]]
            = (Inl e2, c2) \<longrightarrow>
            try_trace_one_block tr c bn = ((None, JNull), c2))"
  using try_trace_block_flat[of w bn res r] try_trace_block_tree[of w bn res2]
    try_trace_block_none[of w bn] scan_block_unsupported[of w bn cs txs st]
    scan_range_unsupported[of s e w cs wb bl] try_trace_one_block_cases[of tr c bn]
  by blast

lemma hex_100: "py_hex 100 = ''0x64''"
  by code_simp

lemma demo_requests:
  "make_request demo_w3 m ps = Inl (RuntimeError ''method not found'')"
  "make_request erigon_like ''trace_block'' ps = Inr (JDict [(''result'', flat_trace)])"
  "make_request erigon_like ''debug_traceBlockByNumber'' ps = Inr (JDict [(''result'', tree_trace)])"
  "make_request geth_like ''trace_block'' ps = Inl (RuntimeError ''method not found'')"
  "make_request geth_like ''debug_traceBlockByNumber'' ps = Inr (JDict [(''result'', tree_trace)])"
  by (simp_all add: demo_w3_def erigon_like_def geth_like_def tree_trace_def)

lemma demo_scan_two_blocks:
  "scan_range demo_w3 100 101 False True 0 False =
     Inr [row_aa\<lparr>total_txs := 2, received_txs := 2, external_txs := 2\<rparr>,
          row_bb\<lparr>total_txs := 2, sent_txs := 2, external_txs := 2\<rparr>]"
  by code_simp

lemma erigon_like_scan:
  "scan_range erigon_like 100 100 False True 0 True =
     Inr [row_aa\<lparr>total_txs := 2, received_from_contract_txs := 1, internal_txs := 1\<rparr>, row_bb]"
  by code_simp

lemma tracing_calls:
  "call tracing_transport two_endpoints ''trace_block'' [JStr ''0x64''] =
     (Inr flat_trace, two_endpoints\<lparr>last_id := 1\<rparr>)"
  "call tree_only_transport two_endpoints ''trace_block'' [JStr ''0x64''] =
     (Inl (RuntimeError ''RPC error: method not found''), two_endpoints\<lparr>last_id := 1\<rparr>)"
  "call tree_only_transport (two_endpoints\<lparr>last_id := 1\<rparr>) ''debug_traceBlockByNumber''
       [JStr ''0x64'', JDict [(''tracer'', JStr ''callTracer''), (''timeout'', JStr ''20s'')]] =
     (Inr tree_trace, two_endpoints\<lparr>last_id := 2\<rparr>)"
  "call always_fails two_endpoints ''trace_block'' [JStr ''0x64''] =
     (Inl fatal_transport_error, two_endpoints\<lparr>endpoint_idx := 0, last_id := 1\<rparr>)"
  "call always_fails (two_endpoints\<lparr>endpoint_idx := 0, last_id := 1\<rparr>) ''debug_traceBlockByNumber''
       [JStr ''0x64'', JDict [(''tracer'', JStr ''callTracer''), (''timeout'', JStr ''20s'')]] =
     (Inl fatal_transport_error, two_endpoints\<lparr>endpoint_idx := 0, last_id := 2\<rparr>)"
  by code_simp+

theorem trace_fallback_witness:
  "try_trace_block erigon_like 100 = (Some ''trace_block'', flat_trace)
   \<and> scan_range erigon_like 100 100 False True 0 True =
       Inr [row_aa\<lparr>total_txs := 2, received_from_contract_txs := 1, internal_txs := 1\<rparr>, row_bb]
   \<and> try_trace_block geth_like 100 = (Some ''debug_trace'', tree_trace)
   \<and> try_trace_block demo_w3 100 = (None, JNull)
   \<and> scan_range demo_w3 100 101 False True 0 True =
       Inr [row_aa\<lparr>total_txs := 2, received_txs := 2, external_txs := 2\<rparr>,
            row_bb\<lparr>total_txs := 2, sent_txs := 2, external_txs := 2\<rparr>]
   \<and> try_trace_one_block tracing_transport two_endpoints 100 =
       ((Some ''trace_block'', flat_trace), two_endpoints\<lparr>last_id := 1\<rparr>)
   \<and> try_trace_one_block tree_only_transport two_endpoints 100 =
       ((Some ''debug_trace'', tree_trace), two_endpoints\<lparr>last_id := 2\<rparr>)
   \<and> try_trace_one_block always_fails two_endpoints 100 =
       ((None, JNull), two_endpoints\<lparr>endpoint_idx := 0, last_id := 2\<rparr>)"
proof -
  have none: "try_trace_block demo_w3 b = (None, JNull)" for b
    using trace_fallback[where w = demo_w3 and bn = b] by (simp add: demo_requests)
  have flat: "try_trace_block erigon_like 100 = (Some ''trace_block'', flat_trace)"
    using trace_fallback[where w = erigon_like and bn = 100 and res = "[(''result'', flat_trace)]"
        and r = "[JDict [(''type'', JStr ''call''),
                   (''action'', JDict [(''to'', JStr ''0xAA''), (''value'', JStr ''0xa'')])]]"]
    by (simp add: demo_requests py_get_def flat_trace_def)
  have tree: "try_trace_block geth_like 100 = (Some ''debug_trace'', tree_trace)"
    using trace_fallback[where w = geth_like and bn = 100 and ?res2.0 = "[(''result'', tree_trace)]"]
    by (simp add: demo_requests py_get_def has_key_def)
  have skip: "scan_range demo_w3 100 101 False True 0 True = scan_range demo_w3 100 101 False True 0 False"
    using trace_fallback[where w = demo_w3 and s = 100 and e = 101 and cs = False and wb = True
        and bl = 0] none
    by simp
  have hp1: "try_trace_one_block tracing_transport two_endpoints 100 =
       ((Some ''trace_block'', flat_trace), two_endpoints\<lparr>last_id := 1\<rparr>)"
    using trace_fallback[where tr = tracing_transport and c = two_endpoints and bn = 100
        and r' = flat_trace and ?c1.0 = "two_endpoints\<lparr>last_id := 1\<rparr>"]
    by (simp add: hex_100 tracing_calls)
  have hp2: "try_trace_one_block tree_only_transport two_endpoints 100 =
       ((Some ''debug_trace'', tree_trace), two_endpoints\<lparr>last_id := 2\<rparr>)"
    using trace_fallback[where tr = tree_only_transport and c = two_endpoints and bn = 100
        and r' = tree_trace and ?c1.0 = "two_endpoints\<lparr>last_id := 1\<rparr>"
        and ?c2.0 = "two_endpoints\<lparr>last_id := 2\<rparr>"
        and ?e1.0 = "RuntimeError ''RPC error: method not found''"]
    by (simp add: hex_100 tracing_calls)
  have hp3: "try_trace_one_block always_fails two_endpoints 100 =
       ((None, JNull), two_endpoints\<lparr>endpoint_idx := 0, last_id := 2\<rparr>)"
    using trace_fallback[where tr = always_fails and c = two_endpoints and bn = 100
        and ?c1.0 = "two_endpoints\<lparr>endpoint_idx := 0, last_id := 1\<rparr>"
        and ?c2.0 = "two_endpoints\<lparr>endpoint_idx := 0, last_id := 2\<rparr>"
        and ?e1.0 = fatal_transport_error and ?e2.0 = fatal_transport_error]
    by (simp add: hex_100 tracing_calls)
  show ?thesis
    using none[of 100] flat tree skip hp1 hp2 hp3 erigon_like_scan demo_scan_two_blocks
    by (simp only: simp_thms)
qed

section \<open>Rows and observed addresses\<close>

lemma scan_tx_finite: "finite (seen_addrs st) \<Longrightarrow> finite (seen_addrs (scan_tx w cs st t))"
  by (simp add: scan_tx_def Let_def split: sum.splits bool.splits)

lemma fold_scan_tx_finite:
  "finite (seen_addrs st) \<Longrightarrow> finite (seen_addrs (fold (\<lambda>t s. scan_tx w cs s t) txs st))"
  by (induction txs arbitrary: st) (simp_all add: scan_tx_finite)

lemma trace_addr_finite:
  "finite (seen_addrs st) \<Longrightarrow> finite (seen_addrs (trace_addr depth m p st a))"
  by (simp add: trace_addr_def split: sum.splits)

lemma fold_trace_addr_finite:
  "finite (seen_addrs st) \<Longrightarrow> finite (seen_addrs (fold (\<lambda>addr s. trace_addr depth m p s addr) as st))"
  by (induction as arbitrary: st) (simp_all add: trace_addr_finite)

lemma scan_block_finite:
  "finite (seen_addrs st) \<Longrightarrow> finite (seen_addrs (scan_block w cs te bn txs st))"
  by (simp add: scan_block_def trace_step_def Let_def fold_scan_tx_finite fold_trace_addr_finite
      split: prod.splits)

lemma scan_blocks_finite:
  "scan_blocks w cs te bns st = Inr st' \<Longrightarrow> finite (seen_addrs st) \<Longrightarrow> finite (seen_addrs st')"
  by (induction bns arbitrary: st) (auto simp: scan_block_finite split: sum.splits)

lemma address_build_row [simp]: "address (build_row st balances a) = a"
  by (simp add: build_row_def Let_def)

text \<open>
  The rows of \<open>scan_range\<close> are those of the addresses in \<open>addr_list\<close>: with a
  \<open>balance_limit\<close> of 0 or less, one row per address seen, in sorted order; with a positive
  \<open>balance_limit\<close>, the first \<open>balance_limit\<close> of them only.
\<close>

lemma scan_range_addresses:
  assumes "scan_range w s e cs wb bl te = Inr rows"
  shows "\<exists>st. scan_blocks w cs te [s..e] init_state = Inr st
         \<and> finite (seen_addrs st)
         \<and> map address rows =
             (if 0 < bl then take (nat bl) (sorted_list_of_set (seen_addrs st))
              else sorted_list_of_set (seen_addrs st))
         \<and> distinct (map address rows)
         \<and> (bl \<le> 0 \<longrightarrow> set (map address rows) = seen_addrs st
                       \<and> length rows = card (seen_addrs st))
         \<and> (0 < bl \<longrightarrow> length rows = min (nat bl) (card (seen_addrs st)))"
proof -
  from assms obtain st balances where
    sb: "scan_blocks w cs te [s..e] init_state = Inr st"
    and rows: "rows = map (build_row st balances) (addr_list st bl)"
    by (auto simp: scan_range_def Let_def split: sum.splits)
  have fin: "finite (seen_addrs st)"
    using scan_blocks_finite[OF sb] by (simp add: init_state_def)
  have m: "map address rows = addr_list st bl" by (simp add: rows comp_def)
  have d: "distinct (addr_list st bl)" by (simp add: addr_list_def Let_def)
  have l: "length rows = length (addr_list st bl)" by (simp add: rows)
  show ?thesis
    using sb fin m d l by (auto simp: addr_list_def Let_def)
qed

text \<open>
  C3. One block with a transaction from \<open>0xBB\<close> to \<open>0xAA\<close>: both addresses are observed
  and get a row when \<open>balance_limit\<close> is 0, but with \<open>balance_limit = 1\<close> the scan emits the
  row of \<open>0xaa\<close> only, whether balances are fetched or not. The limit, documented as the
  number of addresses to fetch balances for, cuts the list that the rows are built from.
\<close>

theorem scan_range_drops_rows_beyond_balance_limit:
  "scan_range demo_w3 100 100 False True 0 False = Inr [row_aa, row_bb]
   \<and> scan_range demo_w3 100 100 False True 1 False = Inr [row_aa]
   \<and> scan_range demo_w3 100 100 False False 1 False = Inr [row_aa\<lparr>eth_balance := None\<rparr>]"
  by code_simp

end
